theory Spec2Isabelle
  imports Complex_Main
begin

section \<open>JavaScript values used by script.js\<close>

text \<open>
  The indices of script.js are JavaScript numbers that start at the integer 0 and are only
  ever changed by \<open>+ 1\<close>, \<open>- 1\<close>, \<open>+ length\<close> and \<open>% length\<close>. On integers
  below \<open>2^53\<close> these operations are exact, so an index is an integer or, after a
  remainder by zero, NaN. (The sign of a zero result is not kept: \<open>-0\<close> reads the same
  array slot as \<open>0\<close> and is \<open>===\<close> to it.)
\<close>

datatype jsnum = Num int | NaN

fun js_add :: "jsnum \<Rightarrow> jsnum \<Rightarrow> jsnum" where
  "js_add (Num a) (Num b) = Num (a + b)"
| "js_add _ _ = NaN"

fun js_sub :: "jsnum \<Rightarrow> jsnum \<Rightarrow> jsnum" where
  "js_sub (Num a) (Num b) = Num (a - b)"
| "js_sub _ _ = NaN"

text \<open>The operator \<open>%\<close>: the remainder takes the sign of the dividend; \<open>x % 0\<close> is NaN.\<close>

fun js_rem :: "jsnum \<Rightarrow> jsnum \<Rightarrow> jsnum" where
  "js_rem (Num a) (Num b) = (if b = 0 then NaN else Num (sgn a * (\<bar>a\<bar> mod \<bar>b\<bar>)))"
| "js_rem _ _ = NaN"

text \<open>The operator \<open>===\<close> on numbers: NaN is equal to nothing.\<close>

fun js_strict_eq :: "jsnum \<Rightarrow> jsnum \<Rightarrow> bool" where
  "js_strict_eq (Num a) (Num b) = (a = b)"
| "js_strict_eq _ _ = False"

text \<open>Reading \<open>xs[i]\<close>: \<open>undefined\<close> (None) outside the array and at NaN.\<close>

fun js_index :: "'a list \<Rightarrow> jsnum \<Rightarrow> 'a option" where
  "js_index xs (Num i) = (if 0 \<le> i \<and> i < int (length xs) then Some (xs ! nat i) else None)"
| "js_index xs NaN = None"

text \<open>
  The only exception the modelled handlers can raise is the TypeError of reading a
  property of \<open>undefined\<close>. A handler that throws keeps the assignments it made before
  the throw, so the error carries the state at the throw.
\<close>

datatype js_error = TypeError

type_synonym 'a result = "(js_error \<times> 'a) + 'a"

fun state_of :: "'a result \<Rightarrow> 'a" where
  "state_of (Inl (e, s)) = s"
| "state_of (Inr s) = s"

fun threw :: "'a result \<Rightarrow> bool" where
  "threw (Inl _) = True"
| "threw (Inr _) = False"

text \<open>\<open>classList\<close> is a set of class names; \<open>toggle(name, force)\<close> adds or removes.\<close>

type_synonym classList = "string set"

definition classList_add :: "string \<Rightarrow> classList \<Rightarrow> classList" where
  "classList_add c cl = insert c cl"

definition classList_remove :: "string \<Rightarrow> classList \<Rightarrow> classList" where
  "classList_remove c cl = cl - {c}"

definition classList_toggle :: "string \<Rightarrow> bool \<Rightarrow> classList \<Rightarrow> classList" where
  "classList_toggle c force cl = (if force then classList_add c cl else classList_remove c cl)"

section \<open>Gallery lightbox (script.js, section 5)\<close>

record image =
  src :: string
  alt :: string

text \<open>
  \<open>galleryImages\<close> is a constant array built once from the page, so it is a parameter of
  the functions below. The counter's text is the template
  \<open>`${currentImageIndex + 1} / ${galleryImages.length}`\<close>; the model keeps the two numbers
  the template prints.
\<close>

record lightbox =
  currentImageIndex :: jsnum
  lightbox_classList :: classList
  lightboxImg :: image
  lightboxCounter :: "jsnum \<times> nat"
  body_overflow :: string

definition updateLightboxImage :: "image list \<Rightarrow> lightbox \<Rightarrow> lightbox result" where
  "updateLightboxImage galleryImages s =
     (case js_index galleryImages (currentImageIndex s) of
        None \<Rightarrow> Inl (TypeError, s)
      | Some img \<Rightarrow>
          Inr (s\<lparr>lightboxImg := \<lparr>src = src img, alt = alt img\<rparr>,
                 lightboxCounter :=
                   (js_add (currentImageIndex s) (Num 1), length galleryImages)\<rparr>))"

definition showNextImage :: "image list \<Rightarrow> lightbox \<Rightarrow> lightbox result" where
  "showNextImage galleryImages s =
     updateLightboxImage galleryImages
       (s\<lparr>currentImageIndex :=
            js_rem (js_add (currentImageIndex s) (Num 1))
                   (Num (int (length galleryImages)))\<rparr>)"

definition showPrevImage :: "image list \<Rightarrow> lightbox \<Rightarrow> lightbox result" where
  "showPrevImage galleryImages s =
     updateLightboxImage galleryImages
       (s\<lparr>currentImageIndex :=
            js_rem (js_add (js_sub (currentImageIndex s) (Num 1))
                           (Num (int (length galleryImages))))
                   (Num (int (length galleryImages)))\<rparr>)"

definition openLightbox :: "image list \<Rightarrow> lightbox \<Rightarrow> lightbox result" where
  "openLightbox galleryImages s =
     (case updateLightboxImage galleryImages
             (s\<lparr>lightbox_classList := classList_add ''active'' (lightbox_classList s)\<rparr>) of
        Inl e \<Rightarrow> Inl e
      | Inr s' \<Rightarrow> Inr (s'\<lparr>body_overflow := ''hidden''\<rparr>))"

definition closeLightbox :: "lightbox \<Rightarrow> lightbox" where
  "closeLightbox s =
     s\<lparr>lightbox_classList := classList_remove ''active'' (lightbox_classList s),
       body_overflow := ''auto''\<rparr>"

text \<open>
  The navigation a user can trigger: the two arrow buttons of the lightbox (and, while the
  lightbox is open, the arrow keys, which call the same two functions).
\<close>

datatype nav = Next | Previous

fun lightbox_nav :: "image list \<Rightarrow> nav \<Rightarrow> lightbox \<Rightarrow> lightbox result" where
  "lightbox_nav g Next s = showNextImage g s"
| "lightbox_nav g Previous s = showPrevImage g s"

text \<open>
  A sequence of navigation calls. An exception ends only the handler that raised it; the
  next event runs on the state the failed handler left. The result is the final state and
  whether any call threw.
\<close>

fun lightbox_run :: "image list \<Rightarrow> nav list \<Rightarrow> lightbox \<Rightarrow> bool \<times> lightbox" where
  "lightbox_run g [] s = (False, s)"
| "lightbox_run g (n # ns) s =
     (let r = lightbox_nav g n s; (t, s') = lightbox_run g ns (state_of r)
      in (threw r \<or> t, s'))"

text \<open>The index is a valid position of a collection of length \<open>n\<close>.\<close>

fun in_range :: "nat \<Rightarrow> jsnum \<Rightarrow> bool" where
  "in_range n (Num i) = (0 \<le> i \<and> i < int n)"
| "in_range n NaN = False"

definition gallery_item_click :: "image list \<Rightarrow> nat \<Rightarrow> lightbox \<Rightarrow> lightbox result" where
  \<comment> \<open>the click handler of gallery item \<open>index\<close>; there is one per element of \<open>galleryImages\<close>\<close>
  "gallery_item_click galleryImages index s =
     (if index < length galleryImages
      then openLightbox galleryImages (s\<lparr>currentImageIndex := Num (int index)\<rparr>)
      else Inr s)"

section \<open>Image slider (script.js, section 6)\<close>

text \<open>
  The slider's state is the two variables \<open>currentSlideIndex\<close> and \<open>sliderInterval\<close>
  and the class lists of the images and dots. \<open>sliderArrowLeft\<close> and
  \<open>sliderArrowRight\<close> say whether \<open>querySelector\<close> found the button.

  \<open>setInterval\<close> and \<open>clearInterval\<close> act on the browser's timer table, which is part
  of the state: a clock in milliseconds, the active intervals as triples (handle, time of
  the next run, period) and the next unused handle. The timers are idealised: a callback
  runs exactly when its time is reached. Every interval of the slider runs
  \<open>showNextSlide\<close>; \<open>fired\<close> records the times at which the browser ran it.
\<close>

record slider =
  currentSlideIndex :: jsnum
  sliderInterval :: "nat option"
  storiaSliderImages :: "classList list"
  sliderDots :: "classList list"
  sliderArrowLeft :: bool
  sliderArrowRight :: bool
  clock :: nat
  intervals :: "(nat \<times> nat \<times> nat) list"
  next_handle :: nat
  fired :: "nat list"

definition toggle_active :: "jsnum \<Rightarrow> classList list \<Rightarrow> classList list" where
  \<comment> \<open>\<open>els.forEach((el, index) => el.classList.toggle('active', index === current))\<close>\<close>
  "toggle_active current els =
     map (\<lambda>(index, cl). classList_toggle ''active'' (js_strict_eq (Num (int index)) current) cl)
         (enumerate 0 els)"

definition updateSlider :: "slider \<Rightarrow> slider" where
  "updateSlider s =
     s\<lparr>storiaSliderImages := toggle_active (currentSlideIndex s) (storiaSliderImages s),
       sliderDots := toggle_active (currentSlideIndex s) (sliderDots s)\<rparr>"

definition showNextSlide :: "slider \<Rightarrow> slider" where
  "showNextSlide s =
     updateSlider
       (s\<lparr>currentSlideIndex :=
            js_rem (js_add (currentSlideIndex s) (Num 1))
                   (Num (int (length (storiaSliderImages s))))\<rparr>)"

definition showPrevSlide :: "slider \<Rightarrow> slider" where
  "showPrevSlide s =
     updateSlider
       (s\<lparr>currentSlideIndex :=
            js_rem (js_add (js_sub (currentSlideIndex s) (Num 1))
                           (Num (int (length (storiaSliderImages s)))))
                   (Num (int (length (storiaSliderImages s))))\<rparr>)"

definition goToSlide :: "jsnum \<Rightarrow> slider \<Rightarrow> slider" where
  "goToSlide index s = updateSlider (s\<lparr>currentSlideIndex := index\<rparr>)"

definition setInterval :: "nat \<Rightarrow> slider \<Rightarrow> nat \<times> slider" where
  "setInterval ms s =
     (next_handle s,
      s\<lparr>intervals := intervals s @ [(next_handle s, clock s + ms, ms)],
        next_handle := Suc (next_handle s)\<rparr>)"

definition clearInterval :: "nat option \<Rightarrow> slider \<Rightarrow> slider" where
  \<comment> \<open>\<open>clearInterval(undefined)\<close> and an unknown handle do nothing\<close>
  "clearInterval h s =
     (case h of
        None \<Rightarrow> s
      | Some k \<Rightarrow> s\<lparr>intervals := filter (\<lambda>(k', due, period). k' \<noteq> k) (intervals s)\<rparr>)"

definition resetSliderInterval :: "slider \<Rightarrow> slider" where
  "resetSliderInterval s =
     (let (h, s') = setInterval 8000 (clearInterval (sliderInterval s) s)
      in s'\<lparr>sliderInterval := Some h\<rparr>)"

text \<open>
  Loading the script: the variables are initialised, and \<open>if (storiaSliderImages.length > 0)\<close>
  starts the interval. The page gives the images, the dots, the two buttons and the time.
\<close>

definition slider_load :: "classList list \<Rightarrow> classList list \<Rightarrow> bool \<Rightarrow> bool \<Rightarrow> nat \<Rightarrow> slider" where
  "slider_load imgs dots left right t =
     (let s = \<lparr>currentSlideIndex = Num 0, sliderInterval = None,
                storiaSliderImages = imgs, sliderDots = dots,
                sliderArrowLeft = left, sliderArrowRight = right,
                clock = t, intervals = [], next_handle = 1, fired = []\<rparr>
      in if length imgs > 0
         then (let (h, s') = setInterval 8000 s in s'\<lparr>sliderInterval := Some h\<rparr>)
         else s)"

text \<open>One millisecond passes: every interval whose time has come runs, and is rescheduled.\<close>

fun fire_due :: "(nat \<times> nat \<times> nat) list \<Rightarrow> slider \<Rightarrow> slider" where
  "fire_due [] s = s"
| "fire_due ((h, due, period) # ts) s =
     (if due = clock s
      then fire_due ts ((showNextSlide s)\<lparr>fired := fired s @ [clock s]\<rparr>)
      else fire_due ts s)"

definition tick :: "slider \<Rightarrow> slider" where
  "tick s =
     (let s1 = s\<lparr>clock := Suc (clock s)\<rparr>;
          s2 = fire_due (intervals s1) s1
      in s2\<lparr>intervals :=
             map (\<lambda>(h, due, period). if due = clock s2 then (h, due + period, period)
                                       else (h, due, period))
                 (intervals s2)\<rparr>)"

text \<open>
  What can happen to the slider after loading. The click listeners exist only if the
  guard \<open>storiaSliderImages.length > 0\<close> held at load time, the arrow listeners only if
  the button exists, and there is one dot listener per dot.
\<close>

datatype slider_event = ClickArrowRight | ClickArrowLeft | ClickDot nat | Tick

fun slider_handle :: "slider_event \<Rightarrow> slider \<Rightarrow> slider" where
  "slider_handle ClickArrowRight s =
     (if length (storiaSliderImages s) > 0 \<and> sliderArrowRight s
      then resetSliderInterval (showNextSlide s) else s)"
| "slider_handle ClickArrowLeft s =
     (if length (storiaSliderImages s) > 0 \<and> sliderArrowLeft s
      then resetSliderInterval (showPrevSlide s) else s)"
| "slider_handle (ClickDot index) s =
     (if length (storiaSliderImages s) > 0 \<and> index < length (sliderDots s)
      then resetSliderInterval (goToSlide (Num (int index)) s) else s)"
| "slider_handle Tick s = tick s"




fun slider_nav :: "nav \<Rightarrow> slider \<Rightarrow> slider" where
  "slider_nav Next s = showNextSlide s"
| "slider_nav Previous s = showPrevSlide s"

fun slider_run :: "nav list \<Rightarrow> slider \<Rightarrow> slider" where
  "slider_run [] s = s"
| "slider_run (n # ns) s = slider_run ns (slider_nav n s)"


text \<open>A page used to run the definitions: three gallery images, two slides, two dots.\<close>

definition example_gallery :: "image list" where
  "example_gallery =
     [\<lparr>src = ''a.jpg'', alt = ''a''\<rparr>, \<lparr>src = ''b.jpg'', alt = ''b''\<rparr>,
      \<lparr>src = ''c.jpg'', alt = ''c''\<rparr>]"

definition example_lightbox :: lightbox where
  "example_lightbox =
     \<lparr>currentImageIndex = Num 2, lightbox_classList = {''active''},
      lightboxImg = \<lparr>src = ''c.jpg'', alt = ''c''\<rparr>, lightboxCounter = (Num 3, 3),
      body_overflow = ''hidden''\<rparr>"

definition example_slider :: slider where
  "example_slider = slider_load [{''active''}, {}] [{''active''}, {}] True True 0"

section \<open>Layout switcher (script.js, section 4)\<close>

text \<open>
  The tabs and the displays are elements of the page, found by two \<open>querySelectorAll\<close>
  calls. Nothing in script.js keeps an element from appearing in both lists, so the
  elements live in a store, indexed by their identity, and the two lists hold identities.
  \<open>getAttribute('data-layout')\<close> is \<open>null\<close> (None) where the attribute is absent, and
  \<open>null === null\<close> holds.
\<close>

record element =
  classes :: classList
  data_layout :: "string option"

type_synonym dom = "nat \<Rightarrow> element"

definition remove_active_all :: "nat list \<Rightarrow> dom \<Rightarrow> dom" where
  \<comment> \<open>\<open>layoutTabs.forEach(t => t.classList.remove('active'))\<close>\<close>
  "remove_active_all layoutTabs d =
     fold (\<lambda>t d'. d'(t := (d' t)\<lparr>classes := classList_remove ''active'' (classes (d' t))\<rparr>))
          layoutTabs d"

definition update_displays :: "string option \<Rightarrow> nat list \<Rightarrow> dom \<Rightarrow> dom" where
  "update_displays layoutType layoutDisplays d =
     fold (\<lambda>display d'.
             if data_layout (d' display) = layoutType
             then d'(display := (d' display)\<lparr>classes := classList_add ''active'' (classes (d' display))\<rparr>)
             else d'(display := (d' display)\<lparr>classes := classList_remove ''active'' (classes (d' display))\<rparr>))
          layoutDisplays d"

definition layout_tab_click :: "nat list \<Rightarrow> nat list \<Rightarrow> nat \<Rightarrow> dom \<Rightarrow> dom" where
  \<comment> \<open>the click listener of \<open>tab\<close>; only the elements of \<open>layoutTabs\<close> have one\<close>
  "layout_tab_click layoutTabs layoutDisplays tab d =
     (if tab \<in> set layoutTabs
      then (let layoutType = data_layout (d tab);
                d1 = remove_active_all layoutTabs d;
                d2 = d1(tab := (d1 tab)\<lparr>classes := classList_add ''active'' (classes (d1 tab))\<rparr>)
            in update_displays layoutType layoutDisplays d2)
      else d)"

fun layout_tab_clicks :: "nat list \<Rightarrow> nat list \<Rightarrow> nat list \<Rightarrow> dom \<Rightarrow> dom" where
  "layout_tab_clicks layoutTabs layoutDisplays [] d = d"
| "layout_tab_clicks layoutTabs layoutDisplays (tab # tabs) d =
     layout_tab_clicks layoutTabs layoutDisplays tabs
       (layout_tab_click layoutTabs layoutDisplays tab d)"

text \<open>A page used to run the definitions: tabs 0, 1, 2 and displays 10, 11, 12.\<close>

definition example_dom :: dom where
  "example_dom =
     (\<lambda>_. \<lparr>classes = {}, data_layout = None\<rparr>)
       (0 := \<lparr>classes = {''layout-tab'', ''active''}, data_layout = Some ''banquet''\<rparr>,
        1 := \<lparr>classes = {''layout-tab'', ''active''}, data_layout = Some ''theatre''\<rparr>,
        2 := \<lparr>classes = {''layout-tab''}, data_layout = Some ''cocktail''\<rparr>,
        10 := \<lparr>classes = {''layout-display''}, data_layout = Some ''banquet''\<rparr>,
        11 := \<lparr>classes = {''layout-display'', ''active''}, data_layout = Some ''theatre''\<rparr>,
        12 := \<lparr>classes = {''layout-display'', ''active''}, data_layout = Some ''cocktail''\<rparr>)"

section \<open>Reviews banner (script.js, section REVIEWS BANNER)\<close>

text \<open>
  What \<open>checkBannerVisibility\<close> reads from the page. \<open>innerHeight\<close>, \<open>offsetTop\<close> and
  \<open>offsetHeight\<close> are integers (the DOM types them \<open>long\<close>); \<open>scrollY\<close> is a
  finite double, hence a rational. Halving a 32-bit integer, adding the halves and
  comparing are exact in doubles, so rational arithmetic computes what the code computes.
\<close>

record metrics =
  scrollY :: rat
  innerHeight :: int
  doveSiamo_offsetTop :: int
  doveSiamo_offsetHeight :: int
  contact_offsetTop :: int
  contact_offsetHeight :: int

text \<open>
  The banner element: its class list and the \<open>display\<close> property of its inline style
  (the empty string while unset). \<open>reviewClose\<close> says whether the close button exists.
\<close>

record banner =
  banner_classList :: classList
  banner_style_display :: string
  reviewClose :: bool

definition pastDoveSiamo :: "metrics \<Rightarrow> bool" where
  "pastDoveSiamo m =
     (let windowHeight = of_int (innerHeight m); doveSiamoTop = of_int (doveSiamo_offsetTop m)
      in scrollY m \<ge> doveSiamoTop - windowHeight / 2)"

definition beforeContactMiddle :: "metrics \<Rightarrow> bool" where
  "beforeContactMiddle m =
     (let contactTop = of_int (contact_offsetTop m);
          contactHeight = of_int (contact_offsetHeight m);
          contactMiddle = contactTop + (contactHeight / 2)
      in scrollY m < contactMiddle)"

definition checkBannerVisibility :: "metrics \<Rightarrow> banner \<Rightarrow> banner" where
  "checkBannerVisibility m b =
     (if pastDoveSiamo m \<and> beforeContactMiddle m
      then b\<lparr>banner_classList := classList_add ''visible'' (banner_classList b)\<rparr>
      else b\<lparr>banner_classList := classList_remove ''visible'' (banner_classList b)\<rparr>)"

definition review_close_click :: "banner \<Rightarrow> banner" where
  \<comment> \<open>the listener is registered only \<open>if (reviewClose)\<close>\<close>
  "review_close_click b =
     (if reviewClose b
      then b\<lparr>banner_classList := classList_remove ''visible'' (banner_classList b),
             banner_style_display := ''none''\<rparr>
      else b)"

text \<open>
  The events that reach the banner element: a scroll, with the page's measures at that
  moment, and a click on the close button. (The rotation of the reviews, the only other
  code of the section, changes the class lists of the review items alone.)
\<close>

datatype banner_event = Scroll metrics | CloseClick

fun banner_handle :: "banner_event \<Rightarrow> banner \<Rightarrow> banner" where
  "banner_handle (Scroll m) b = checkBannerVisibility m b"
| "banner_handle CloseClick b = review_close_click b"

fun banner_events :: "banner_event list \<Rightarrow> banner \<Rightarrow> banner" where
  "banner_events [] b = b"
| "banner_events (e # es) b = banner_events es (banner_handle e b)"

section \<open>JavaScript strings and their conversion to numbers\<close>

text \<open>
  A JavaScript string is a sequence of UTF-16 code units. \<open>ascii\<close> writes one from its
  ASCII spelling.
\<close>

type_synonym jsstring = "nat list"

definition ascii :: "string \<Rightarrow> jsstring" where
  "ascii s = map of_char s"

text \<open>
  The code units that \<open>trim()\<close> strips, that \<open>\s\<close> matches and that the conversion of a
  string to a number skips: TAB, LF, VT, FF, CR, SP, NBSP, U+1680, U+2000 to U+200A,
  U+2028, U+2029, U+202F, U+205F, U+3000 and U+FEFF.
\<close>

definition is_whitespace :: "nat \<Rightarrow> bool" where
  "is_whitespace c =
     (c = 9 \<or> c = 10 \<or> c = 11 \<or> c = 12 \<or> c = 13 \<or> c = 32 \<or> c = 160 \<or> c = 5760
      \<or> (8192 \<le> c \<and> c \<le> 8202) \<or> c = 8232 \<or> c = 8233 \<or> c = 8239 \<or> c = 8287
      \<or> c = 12288 \<or> c = 65279)"

definition js_trim :: "jsstring \<Rightarrow> jsstring" where
  "js_trim s = rev (dropWhile is_whitespace (rev (dropWhile is_whitespace s)))"

text \<open>
  The value of a form field is compared with a number (\<open>guests.value < 1\<close>,
  \<open>field.value > 0\<close>), which converts the string to a double first. A double is NaN, an
  infinity or a finite value, which is a rational. (The sign of zero is not kept: both
  zeros compare alike.)
\<close>

datatype jsdouble = NotANumber | Finite rat | PosInfinity | NegInfinity

fun js_lt :: "jsdouble \<Rightarrow> jsdouble \<Rightarrow> bool" where
  "js_lt (Finite a) (Finite b) = (a < b)"
| "js_lt (Finite a) PosInfinity = True"
| "js_lt NegInfinity (Finite b) = True"
| "js_lt NegInfinity PosInfinity = True"
| "js_lt _ _ = False"

fun js_neg :: "jsdouble \<Rightarrow> jsdouble" where
  "js_neg (Finite a) = Finite (- a)"
| "js_neg PosInfinity = NegInfinity"
| "js_neg NegInfinity = PosInfinity"
| "js_neg NotANumber = NotANumber"

text \<open>
  Rounding a rational to the nearest double (binary64, ties to even): 53 significant bits,
  exponents from \<open>-1022\<close> (below which the spacing stays \<open>2^-1074\<close>) to 1023 (above which
  the result is an infinity).
\<close>

function bit_length :: "int \<Rightarrow> int" where
  "bit_length n = (if n \<le> 0 then 0 else 1 + bit_length (n div 2))"
  by pat_completeness auto
termination
  by (relation "measure nat") auto

definition pow2 :: "int \<Rightarrow> rat" where
  "pow2 k = (if 0 \<le> k then 2 ^ nat k else 1 / 2 ^ nat (- k))"

definition pow10 :: "int \<Rightarrow> rat" where
  "pow10 k = (if 0 \<le> k then 10 ^ nat k else 1 / 10 ^ nat (- k))"

definition floor_log2 :: "rat \<Rightarrow> int" where
  \<comment> \<open>for \<open>x > 0\<close>, the \<open>e\<close> with \<open>2^e \<le> x < 2^(e+1)\<close>\<close>
  "floor_log2 x =
     (if 1 \<le> x then bit_length \<lfloor>x\<rfloor> - 1 else - bit_length (\<lceil>1 / x\<rceil> - 1))"

definition round_half_even :: "rat \<Rightarrow> int" where
  "round_half_even y =
     (let n = \<lfloor>y\<rfloor>; f = y - of_int n
      in if f < 1 / 2 then n else if 1 / 2 < f then n + 1 else if even n then n else n + 1)"

definition to_double :: "rat \<Rightarrow> jsdouble" where
  "to_double x =
     (if x = 0 then Finite 0
      else (let a = \<bar>x\<bar>;
                e = max (floor_log2 a) (- 1022);
                ulp = pow2 (e - 52);
                r = of_int (round_half_even (a / ulp)) * ulp
            in if pow2 1024 \<le> r then (if x < 0 then NegInfinity else PosInfinity)
               else Finite (if x < 0 then - r else r)))"

text \<open>
  The conversion itself (StringToNumber of the language definition): white space is
  stripped at both ends; the empty string is 0; \<open>0x\<close>, \<open>0o\<close> and \<open>0b\<close> introduce an
  unsigned integer in base 16, 8 and 2; otherwise the string is an optional sign followed
  by \<open>Infinity\<close> or by decimal digits with an optional fraction and an optional exponent;
  everything else is NaN.
\<close>

definition is_digit :: "nat \<Rightarrow> bool" where
  "is_digit c = (48 \<le> c \<and> c \<le> 57)"

definition digit_of :: "nat \<Rightarrow> nat" where
  \<comment> \<open>the value of a digit of any base up to 16; 16 for any other code unit\<close>
  "digit_of c =
     (if 48 \<le> c \<and> c \<le> 57 then c - 48
      else if 97 \<le> c \<and> c \<le> 102 then c - 87
      else if 65 \<le> c \<and> c \<le> 70 then c - 55
      else 16)"

definition digits_value :: "int \<Rightarrow> jsstring \<Rightarrow> int" where
  "digits_value base ds = foldl (\<lambda>a c. base * a + int (digit_of c)) 0 ds"

definition all_digits :: "nat \<Rightarrow> jsstring \<Rightarrow> bool" where
  "all_digits base ds = (ds \<noteq> [] \<and> list_all (\<lambda>c. digit_of c < base) ds)"

definition NonDecimalIntegerLiteral :: "jsstring \<Rightarrow> int option" where
  "NonDecimalIntegerLiteral t =
     (case t of
        z # p # ds \<Rightarrow>
          (if z = 48 \<and> (p = 120 \<or> p = 88) \<and> all_digits 16 ds then Some (digits_value 16 ds)
           else if z = 48 \<and> (p = 111 \<or> p = 79) \<and> all_digits 8 ds then Some (digits_value 8 ds)
           else if z = 48 \<and> (p = 98 \<or> p = 66) \<and> all_digits 2 ds then Some (digits_value 2 ds)
           else None)
      | _ \<Rightarrow> None)"

definition SignedInteger :: "jsstring \<Rightarrow> int option" where
  "SignedInteger t =
     (case t of
        [] \<Rightarrow> None
      | c # ds \<Rightarrow>
          (if c = 43 then (if all_digits 10 ds then Some (digits_value 10 ds) else None)
           else if c = 45 then (if all_digits 10 ds then Some (- digits_value 10 ds) else None)
           else if all_digits 10 t then Some (digits_value 10 t) else None))"

definition ExponentPart_opt :: "jsstring \<Rightarrow> int option" where
  \<comment> \<open>nothing, or \<open>e\<close> or \<open>E\<close> and a signed integer, up to the end of the string\<close>
  "ExponentPart_opt t =
     (case t of
        [] \<Rightarrow> Some 0
      | c # ds \<Rightarrow> (if c = 101 \<or> c = 69 then SignedInteger ds else None))"

definition StrUnsignedDecimalLiteral :: "jsstring \<Rightarrow> jsdouble option" where
  "StrUnsignedDecimalLiteral u =
     (if u = ascii ''Infinity'' then Some PosInfinity
      else (let ip = takeWhile is_digit u;
                r1 = dropWhile is_digit u;
                has_dot = (r1 \<noteq> [] \<and> hd r1 = 46);
                fp = (if has_dot then takeWhile is_digit (tl r1) else []);
                r2 = (if has_dot then dropWhile is_digit (tl r1) else r1)
            in if ip = [] \<and> fp = [] then None
               else (case ExponentPart_opt r2 of
                       None \<Rightarrow> None
                     | Some ex \<Rightarrow>
                         Some (to_double
                           ((of_int (digits_value 10 ip)
                              + of_int (digits_value 10 fp) / 10 ^ length fp) * pow10 ex)))))"

definition StrDecimalLiteral :: "jsstring \<Rightarrow> jsdouble option" where
  "StrDecimalLiteral t =
     (case t of
        [] \<Rightarrow> None
      | c # u \<Rightarrow>
          (if c = 43 then StrUnsignedDecimalLiteral u
           else if c = 45 then map_option js_neg (StrUnsignedDecimalLiteral u)
           else StrUnsignedDecimalLiteral t))"

definition StringToNumber :: "jsstring \<Rightarrow> jsdouble" where
  "StringToNumber s =
     (let t = js_trim s
      in if t = [] then Finite 0
         else (case NonDecimalIntegerLiteral t of
                 Some n \<Rightarrow> to_double (of_int n)
               | None \<Rightarrow>
                   (case StrDecimalLiteral t of None \<Rightarrow> NotANumber | Some d \<Rightarrow> d)))"

section \<open>Contact form (script.js, section 8)\<close>

text \<open>
  A regular expression of the shape the script uses: a sequence of items, each one
  character class, taken once or (with \<open>+\<close>) once or more, between \<open>^\<close> and \<open>$\<close>.
  \<open>regex_test\<close> follows the matcher of the language: a \<open>+\<close> item first tries to take
  one more code unit and, when the rest fails, goes on to the next item.
\<close>

datatype item = One "nat \<Rightarrow> bool" | OneOrMore "nat \<Rightarrow> bool"

fun regex_test :: "item list \<Rightarrow> jsstring \<Rightarrow> bool" where
  "regex_test [] s = (s = [])"
| "regex_test (One P # r) [] = False"
| "regex_test (One P # r) (c # s) = (P c \<and> regex_test r s)"
| "regex_test (OneOrMore P # r) [] = False"
| "regex_test (OneOrMore P # r) (c # s) =
     (P c \<and> (regex_test (OneOrMore P # r) s \<or> regex_test r s))"

definition not_space_or_at :: "nat \<Rightarrow> bool" where
  \<comment> \<open>the class \<open>[^\s@]\<close>\<close>
  "not_space_or_at c = (\<not> is_whitespace c \<and> c \<noteq> 64)"

definition emailRegex :: "item list" where
  \<comment> \<open>\<open>/^[^\s@]+@[^\s@]+\.[^\s@]+$/\<close>\<close>
  "emailRegex =
     [OneOrMore not_space_or_at, One (\<lambda>c. c = 64), OneOrMore not_space_or_at,
      One (\<lambda>c. c = 46), OneOrMore not_space_or_at]"

text \<open>
  The six fields the submit handler looks up by id, and the condition under which it
  marks each one, in the order of the handler.
\<close>

datatype field_id = Name | Email | Phone | EventDate | Guests | Message

fun field_fails :: "field_id \<Rightarrow> jsstring \<Rightarrow> bool" where
  "field_fails Name v = (js_trim v = [])"
| "field_fails Email v = (\<not> regex_test emailRegex (js_trim v))"
| "field_fails Phone v = (js_trim v = [])"
| "field_fails EventDate v = (v = [])"
| "field_fails Guests v = (v = [] \<or> js_lt (StringToNumber v) (Finite 1))"
| "field_fails Message v = (js_trim v = [])"

text \<open>
  The page is not part of the script: \<open>formGroups\<close> are the \<open>.form-group\<close> elements
  inside the form, \<open>closest f\<close> is the \<open>.form-group\<close> around field \<open>f\<close>, \<open>val f\<close> is the
  field's \<open>value\<close>. The state is the class list of every group. The handler returns the
  new class lists, \<open>isValid\<close>, and whether it showed the popup and scheduled
  \<open>contactForm.submit()\<close>; it calls \<open>preventDefault\<close> on both paths.
\<close>

record 'g submit_result =
  groups :: "'g \<Rightarrow> classList"
  isValid :: bool
  popup_shown :: bool
  submit_scheduled :: bool

definition mark_error :: "bool \<Rightarrow> 'g \<Rightarrow> ('g \<Rightarrow> classList) \<times> bool \<Rightarrow> ('g \<Rightarrow> classList) \<times> bool" where
  \<comment> \<open>\<open>if (cond) { group.classList.add('error'); isValid = false; }\<close>\<close>
  "mark_error cond g st =
     (if cond then ((fst st)(g := classList_add ''error'' (fst st g)), False) else st)"

definition contactForm_submit ::
  "'g list \<Rightarrow> (field_id \<Rightarrow> 'g) \<Rightarrow> (field_id \<Rightarrow> jsstring) \<Rightarrow> ('g \<Rightarrow> classList) \<Rightarrow> 'g submit_result" where
  "contactForm_submit formGroups closest val cls =
     (let cleared = fold (\<lambda>group c. c(group := classList_remove ''error'' (c group))) formGroups cls;
          st0 = (cleared, True);
          st1 = mark_error (js_trim (val Name) = []) (closest Name) st0;
          st2 = mark_error (\<not> regex_test emailRegex (js_trim (val Email))) (closest Email) st1;
          st3 = mark_error (js_trim (val Phone) = []) (closest Phone) st2;
          st4 = mark_error (val EventDate = []) (closest EventDate) st3;
          st5 = mark_error (val Guests = [] \<or> js_lt (StringToNumber (val Guests)) (Finite 1))
                  (closest Guests) st4;
          st6 = mark_error (js_trim (val Message) = []) (closest Message) st5
      in if \<not> snd st6
         then \<lparr>groups = fst st6, isValid = False, popup_shown = False, submit_scheduled = False\<rparr>
         else \<lparr>groups = fst st6, isValid = True, popup_shown = True, submit_scheduled = True\<rparr>)"

text \<open>
  \<open>validateField\<close>, run when a field loses the focus, acts on the class list of the
  field's group. Of the field it reads the \<open>required\<close> attribute, the \<open>type\<close> and the
  \<open>value\<close>.
\<close>

record field =
  required :: bool
  ftype :: string
  fvalue :: jsstring

definition validateField :: "field \<Rightarrow> classList \<Rightarrow> classList" where
  "validateField f formGroup =
     (if required f
      then (if js_trim (fvalue f) = [] then classList_add ''error'' formGroup
            else if ftype f = ''email''
            then (if regex_test emailRegex (js_trim (fvalue f))
                  then classList_remove ''error'' formGroup
                  else classList_add ''error'' formGroup)
            else if ftype f = ''number''
            then (if js_lt (Finite 0) (StringToNumber (fvalue f))
                  then classList_remove ''error'' formGroup
                  else classList_add ''error'' formGroup)
            else classList_remove ''error'' formGroup)
      else formGroup)"

text \<open>
  The two field rules in the words of the specification, to compare with the code:
  a positive number is a non-empty string whose numeric value is greater than 0; an email
  is a string whose trimmed value is non-empty and contains exactly one \<open>@\<close>, with at
  least one character that is not white space before it and, after it, a \<open>.\<close> followed
  by at least one more character.
\<close>

definition spec_required_positive_number :: "jsstring \<Rightarrow> bool" where
  "spec_required_positive_number v = (v \<noteq> [] \<and> js_lt (Finite 0) (StringToNumber v))"

definition spec_required_email :: "jsstring \<Rightarrow> bool" where
  "spec_required_email v =
     (let t = js_trim v;
          before = takeWhile (\<lambda>c. c \<noteq> 64) t;
          after = tl (dropWhile (\<lambda>c. c \<noteq> 64) t)
      in t \<noteq> [] \<and> count_list t 64 = 1 \<and> (\<exists>c \<in> set before. \<not> is_whitespace c)
         \<and> 46 \<in> set (butlast after))"

text \<open>
  The rule of each of the six fields in the words of the specification: the name, the
  phone, the message and the date are not empty after trimming; the email and the number
  of guests follow the two rules above.
\<close>

fun spec_field_rule :: "field_id \<Rightarrow> jsstring \<Rightarrow> bool" where
  "spec_field_rule Name v = (js_trim v \<noteq> [])"
| "spec_field_rule Email v = spec_required_email v"
| "spec_field_rule Phone v = (js_trim v \<noteq> [])"
| "spec_field_rule EventDate v = (js_trim v \<noteq> [])"
| "spec_field_rule Guests v = spec_required_positive_number v"
| "spec_field_rule Message v = (js_trim v \<noteq> [])"

text \<open>
  A form used to run the definitions: every field sits in a group of its own, so a group
  is named by its field; all six groups carry \<open>error\<close> from an earlier attempt; the name
  and the message are empty.
\<close>

definition example_formGroups :: "field_id list" where
  "example_formGroups = [Name, Email, Phone, EventDate, Guests, Message]"

definition example_classes :: "field_id \<Rightarrow> classList" where
  "example_classes g = {''form-group'', ''error''}"

fun example_values :: "field_id \<Rightarrow> jsstring" where
  "example_values Name = []"
| "example_values Email = ascii ''a@b.co''"
| "example_values Phone = ascii ''+39 011 5550100''"
| "example_values EventDate = ascii ''2030-06-01''"
| "example_values Guests = ascii ''5''"
| "example_values Message = []"


text \<open>The same form with half a guest.\<close>

definition example_values_fraction :: "field_id \<Rightarrow> jsstring" where
  "example_values_fraction = example_values(Guests := ascii ''0.5'')"

section \<open>Cyclic selectors: lightbox and slider navigation\<close>

lemma js_next_in_range:
  "in_range n i \<Longrightarrow> in_range n (js_rem (js_add i (Num 1)) (Num (int n)))"
  by (cases i) (auto simp: sgn_if)

lemma js_prev_in_range:
  "in_range n i \<Longrightarrow> in_range n (js_rem (js_add (js_sub i (Num 1)) (Num (int n))) (Num (int n)))"
  by (cases i) (auto simp: sgn_if)

lemma js_rem_nonneg:
  "0 \<le> a \<Longrightarrow> 0 < b \<Longrightarrow> js_rem (Num a) (Num b) = Num (a mod b)"
  by (cases "a = 0") (simp_all add: sgn_if)

lemma int_next_prev:
  fixes k n :: int
  assumes "0 \<le> k" "k < n"
  shows "((k + 1) mod n - 1 + n) mod n = k"
proof (cases "k + 1 = n")
  case True
  then have "(k + 1) mod n = 0" by simp
  moreover have "(n - 1) mod n = n - 1" using assms by (intro mod_pos_pos_trivial) auto
  ultimately show ?thesis using True by simp
next
  case False
  with assms have "(k + 1) mod n = k + 1" by (intro mod_pos_pos_trivial) auto
  then show ?thesis using assms by simp
qed

lemma int_prev_next:
  fixes k n :: int
  assumes "0 \<le> k" "k < n"
  shows "((k - 1 + n) mod n + 1) mod n = k"
proof (cases "k = 0")
  case True
  have "(n - 1) mod n = n - 1" using assms by (intro mod_pos_pos_trivial) auto
  then show ?thesis using True by simp
next
  case False
  with assms have "(k - 1 + n) mod n = k - 1" by simp
  moreover have "k mod n = k" using assms by (intro mod_pos_pos_trivial) auto
  ultimately show ?thesis by simp
qed

lemma js_next_prev:
  assumes "in_range n i"
  shows "js_rem (js_add (js_sub (js_rem (js_add i (Num 1)) (Num (int n))) (Num 1)) (Num (int n)))
           (Num (int n)) = i"
proof (cases i)
  case (Num k)
  with assms have k: "0 \<le> k" "k < int n" by simp_all
  then have n: "0 < int n" by linarith
  have a: "js_rem (js_add i (Num 1)) (Num (int n)) = Num ((k + 1) mod int n)"
    using Num k n js_rem_nonneg [of "k + 1" "int n"] by simp
  have "0 \<le> (k + 1) mod int n" using n by simp
  moreover have "(k + 1) mod int n < int n" using n by simp
  ultimately have b: "0 \<le> (k + 1) mod int n - 1 + int n" by linarith
  show ?thesis
    unfolding a using js_rem_nonneg [OF b n] int_next_prev [OF k] Num by simp
next
  case NaN
  with assms show ?thesis by simp
qed

lemma js_prev_next:
  assumes "in_range n i"
  shows "js_rem (js_add (js_rem (js_add (js_sub i (Num 1)) (Num (int n))) (Num (int n))) (Num 1))
           (Num (int n)) = i"
proof (cases i)
  case (Num k)
  with assms have k: "0 \<le> k" "k < int n" by simp_all
  then have n: "0 < int n" by linarith
  from k have b: "0 \<le> k - 1 + int n" by linarith
  have a: "js_rem (js_add (js_sub i (Num 1)) (Num (int n))) (Num (int n))
             = Num ((k - 1 + int n) mod int n)"
    using Num js_rem_nonneg [OF b n] by simp
  have c: "0 \<le> (k - 1 + int n) mod int n + 1" using n by (simp add: add_nonneg_nonneg)
  show ?thesis
    unfolding a using js_rem_nonneg [OF c n] int_prev_next [OF k] Num by simp
next
  case NaN
  with assms show ?thesis by simp
qed

lemma updateLightboxImage_in_range:
  "in_range (length g) (currentImageIndex s) \<Longrightarrow>
   \<exists>s'. updateLightboxImage g s = Inr s' \<and> currentImageIndex s' = currentImageIndex s"
  by (cases "currentImageIndex s") (auto simp: updateLightboxImage_def)

lemma showNextImage_in_range:
  assumes "in_range (length g) (currentImageIndex s)"
  shows "\<exists>s'. showNextImage g s = Inr s' \<and>
           currentImageIndex s' = js_rem (js_add (currentImageIndex s) (Num 1)) (Num (int (length g)))"
  using updateLightboxImage_in_range [of g "s\<lparr>currentImageIndex :=
            js_rem (js_add (currentImageIndex s) (Num 1)) (Num (int (length g)))\<rparr>"]
    js_next_in_range [OF assms]
  by (simp add: showNextImage_def)

lemma showPrevImage_in_range:
  assumes "in_range (length g) (currentImageIndex s)"
  shows "\<exists>s'. showPrevImage g s = Inr s' \<and>
           currentImageIndex s' =
             js_rem (js_add (js_sub (currentImageIndex s) (Num 1)) (Num (int (length g))))
                    (Num (int (length g)))"
  using updateLightboxImage_in_range [of g "s\<lparr>currentImageIndex :=
            js_rem (js_add (js_sub (currentImageIndex s) (Num 1)) (Num (int (length g))))
                    (Num (int (length g)))\<rparr>"]
    js_prev_in_range [OF assms]
  by (simp add: showPrevImage_def)

lemma lightbox_nav_in_range:
  assumes "in_range (length g) (currentImageIndex s)"
  shows "\<not> threw (lightbox_nav g n s) \<and>
         in_range (length g) (currentImageIndex (state_of (lightbox_nav g n s)))"
proof (cases n)
  case Next
  with showNextImage_in_range [OF assms] js_next_in_range [OF assms] show ?thesis by auto
next
  case Previous
  with showPrevImage_in_range [OF assms] js_prev_in_range [OF assms] show ?thesis by auto
qed

lemma lightbox_run_in_range:
  "in_range (length g) (currentImageIndex s) \<Longrightarrow>
   \<not> fst (lightbox_run g ns s) \<and>
   in_range (length g) (currentImageIndex (snd (lightbox_run g ns s)))"
proof (induction ns arbitrary: s)
  case Nil
  then show ?case by simp
next
  case (Cons n ns)
  from lightbox_nav_in_range [OF Cons.prems, of n]
  have a: "\<not> threw (lightbox_nav g n s)"
    and b: "in_range (length g) (currentImageIndex (state_of (lightbox_nav g n s)))" by simp_all
  from Cons.IH [OF b] a show ?case by (simp add: Let_def split: prod.splits)
qed

lemma length_toggle_active [simp]: "length (toggle_active c els) = length els"
  by (simp add: toggle_active_def)

lemma updateSlider_index [simp]: "currentSlideIndex (updateSlider s) = currentSlideIndex s"
  by (simp add: updateSlider_def)

lemma updateSlider_length [simp]:
  "length (storiaSliderImages (updateSlider s)) = length (storiaSliderImages s)"
  by (simp add: updateSlider_def)

lemma showNextSlide_index:
  "currentSlideIndex (showNextSlide s) =
     js_rem (js_add (currentSlideIndex s) (Num 1)) (Num (int (length (storiaSliderImages s))))"
  by (simp add: showNextSlide_def)

lemma showPrevSlide_index:
  "currentSlideIndex (showPrevSlide s) =
     js_rem (js_add (js_sub (currentSlideIndex s) (Num 1)) (Num (int (length (storiaSliderImages s)))))
       (Num (int (length (storiaSliderImages s))))"
  by (simp add: showPrevSlide_def)

lemma showNextSlide_length [simp]:
  "length (storiaSliderImages (showNextSlide s)) = length (storiaSliderImages s)"
  by (simp add: showNextSlide_def)

lemma showPrevSlide_length [simp]:
  "length (storiaSliderImages (showPrevSlide s)) = length (storiaSliderImages s)"
  by (simp add: showPrevSlide_def)

lemma slider_nav_in_range:
  assumes "in_range (length (storiaSliderImages s)) (currentSlideIndex s)"
  shows "length (storiaSliderImages (slider_nav n s)) = length (storiaSliderImages s) \<and>
         in_range (length (storiaSliderImages s)) (currentSlideIndex (slider_nav n s))"
  using js_next_in_range [OF assms] js_prev_in_range [OF assms]
  by (cases n) (simp_all add: showNextSlide_index showPrevSlide_index)

lemma slider_run_in_range:
  "in_range (length (storiaSliderImages s)) (currentSlideIndex s) \<Longrightarrow>
   length (storiaSliderImages (slider_run ns s)) = length (storiaSliderImages s) \<and>
   in_range (length (storiaSliderImages s)) (currentSlideIndex (slider_run ns s))"
proof (induction ns arbitrary: s)
  case Nil
  then show ?case by simp
next
  case (Cons n ns)
  from slider_nav_in_range [OF Cons.prems, of n]
  have a: "length (storiaSliderImages (slider_nav n s)) = length (storiaSliderImages s)"
    and b: "in_range (length (storiaSliderImages s)) (currentSlideIndex (slider_nav n s))"
    by simp_all
  from Cons.IH [of "slider_nav n s"] a b show ?case by simp
qed


text \<open>
  Claim C1. In a collection of length \<open>N > 0\<close>, starting from an index in \<open>[0, N)\<close>,
  no sequence of next/previous calls of the lightbox throws or leaves \<open>[0, N)\<close>, and
  none of the slider does; next followed by previous, and previous followed by next, give
  back the index they started from.
\<close>

theorem cyclic_selector_in_range_and_invertible:
  assumes "0 < length g" and "in_range (length g) (currentImageIndex lb)"
    and "0 < length (storiaSliderImages sl)"
    and "in_range (length (storiaSliderImages sl)) (currentSlideIndex sl)"
  shows "\<not> fst (lightbox_run g ns lb)
    \<and> in_range (length g) (currentImageIndex (snd (lightbox_run g ns lb)))
    \<and> currentImageIndex (state_of (showPrevImage g (state_of (showNextImage g lb))))
        = currentImageIndex lb
    \<and> currentImageIndex (state_of (showNextImage g (state_of (showPrevImage g lb))))
        = currentImageIndex lb
    \<and> in_range (length (storiaSliderImages sl)) (currentSlideIndex (slider_run ms sl))
    \<and> currentSlideIndex (showPrevSlide (showNextSlide sl)) = currentSlideIndex sl
    \<and> currentSlideIndex (showNextSlide (showPrevSlide sl)) = currentSlideIndex sl"
proof -
  note lr = assms(2) and sr = assms(4)
  have run: "\<not> fst (lightbox_run g ns lb)"
    "in_range (length g) (currentImageIndex (snd (lightbox_run g ns lb)))"
    using lightbox_run_in_range [OF lr] by simp_all
  obtain s1 where s1: "showNextImage g lb = Inr s1"
    "currentImageIndex s1 = js_rem (js_add (currentImageIndex lb) (Num 1)) (Num (int (length g)))"
    using showNextImage_in_range [OF lr] by blast
  have r1: "in_range (length g) (currentImageIndex s1)"
    using js_next_in_range [OF lr] s1 by simp
  obtain s2 where s2: "showPrevImage g s1 = Inr s2"
    "currentImageIndex s2 =
       js_rem (js_add (js_sub (currentImageIndex s1) (Num 1)) (Num (int (length g))))
              (Num (int (length g)))"
    using showPrevImage_in_range [OF r1] by blast
  have np: "currentImageIndex (state_of (showPrevImage g (state_of (showNextImage g lb))))
              = currentImageIndex lb"
    using s1 s2 js_next_prev [OF lr] by simp
  obtain p1 where p1: "showPrevImage g lb = Inr p1"
    "currentImageIndex p1 =
       js_rem (js_add (js_sub (currentImageIndex lb) (Num 1)) (Num (int (length g))))
              (Num (int (length g)))"
    using showPrevImage_in_range [OF lr] by blast
  have r2: "in_range (length g) (currentImageIndex p1)"
    using js_prev_in_range [OF lr] p1 by simp
  obtain p2 where p2: "showNextImage g p1 = Inr p2"
    "currentImageIndex p2 = js_rem (js_add (currentImageIndex p1) (Num 1)) (Num (int (length g)))"
    using showNextImage_in_range [OF r2] by blast
  have pn: "currentImageIndex (state_of (showNextImage g (state_of (showPrevImage g lb))))
              = currentImageIndex lb"
    using p1 p2 js_prev_next [OF lr] by simp
  have srun: "in_range (length (storiaSliderImages sl)) (currentSlideIndex (slider_run ms sl))"
    using slider_run_in_range [OF sr] by simp
  have snp: "currentSlideIndex (showPrevSlide (showNextSlide sl)) = currentSlideIndex sl"
    using js_next_prev [OF sr] by (simp add: showNextSlide_index showPrevSlide_index)
  have spn: "currentSlideIndex (showNextSlide (showPrevSlide sl)) = currentSlideIndex sl"
    using js_prev_next [OF sr] by (simp add: showNextSlide_index showPrevSlide_index)
  from run np pn srun snp spn show ?thesis by blast
qed

text \<open>
  The theorem at a gallery of three images opened on the last one and a slider of two
  slides: four lightbox calls, three slider calls.
\<close>

theorem cyclic_selector_in_range_and_invertible_witness:
  "0 < length example_gallery
   \<and> in_range (length example_gallery) (currentImageIndex example_lightbox)
   \<and> 0 < length (storiaSliderImages example_slider)
   \<and> in_range (length (storiaSliderImages example_slider)) (currentSlideIndex example_slider)
   \<and> \<not> fst (lightbox_run example_gallery [Next, Next, Previous, Previous] example_lightbox)
   \<and> in_range (length example_gallery)
        (currentImageIndex
          (snd (lightbox_run example_gallery [Next, Next, Previous, Previous] example_lightbox)))
   \<and> currentImageIndex
        (state_of (showPrevImage example_gallery
          (state_of (showNextImage example_gallery example_lightbox))))
        = currentImageIndex example_lightbox
   \<and> currentImageIndex
        (state_of (showNextImage example_gallery
          (state_of (showPrevImage example_gallery example_lightbox))))
        = currentImageIndex example_lightbox
   \<and> in_range (length (storiaSliderImages example_slider))
        (currentSlideIndex (slider_run [Previous, Next, Next] example_slider))
   \<and> currentSlideIndex (showPrevSlide (showNextSlide example_slider))
        = currentSlideIndex example_slider
   \<and> currentSlideIndex (showNextSlide (showPrevSlide example_slider))
        = currentSlideIndex example_slider"
proof -
  have 1: "0 < length example_gallery"
    by (simp add: example_gallery_def)
  have 2: "in_range (length example_gallery) (currentImageIndex example_lightbox)"
    by (simp add: example_gallery_def example_lightbox_def)
  have 3: "0 < length (storiaSliderImages example_slider)"
    by (simp add: example_slider_def slider_load_def setInterval_def)
  have 4: "in_range (length (storiaSliderImages example_slider)) (currentSlideIndex example_slider)"
    by (simp add: example_slider_def slider_load_def setInterval_def)
  from 1 2 3 4 cyclic_selector_in_range_and_invertible [OF 1 2 3 4]
  show ?thesis by blast
qed

text \<open>
  Claim C2, at the input where the code departs from it. On an empty gallery
  \<open>showNextImage\<close> and \<open>showPrevImage\<close> assign \<open>x % 0 = NaN\<close> to
  \<open>currentImageIndex\<close> and then throw in \<open>updateLightboxImage\<close>, which reads
  \<open>.src\<close> of \<open>galleryImages[NaN] = undefined\<close>.
\<close>

theorem lightbox_navigation_throws_on_empty_gallery:
  "showNextImage [] s = Inl (TypeError, s\<lparr>currentImageIndex := NaN\<rparr>)
   \<and> showPrevImage [] s = Inl (TypeError, s\<lparr>currentImageIndex := NaN\<rparr>)"
proof -
  have "js_rem x (Num 0) = NaN" for x by (cases x) simp_all
  then show ?thesis
    by (simp add: showNextImage_def showPrevImage_def updateLightboxImage_def)
qed

text \<open>
  The slider has the guard the lightbox lacks: with no images, loading starts no interval
  and no click listener exists, so every click leaves the state as it was.
\<close>

lemma slider_without_images_ignores_clicks:
  assumes "e \<noteq> Tick"
  shows "slider_handle e (slider_load [] dots left right t) = slider_load [] dots left right t"
    and "intervals (slider_load [] dots left right t) = []"
    and "currentSlideIndex (slider_load [] dots left right t) = Num 0"
  using assms by (cases e; simp add: slider_load_def)+

lemma resetSliderInterval_index [simp]:
  "currentSlideIndex (resetSliderInterval s) = currentSlideIndex s"
  by (simp add: resetSliderInterval_def setInterval_def clearInterval_def split: option.splits)

lemma goToSlide_index [simp]: "currentSlideIndex (goToSlide i s) = i"
  by (simp add: goToSlide_def)

text \<open>
  Claim C3 as stated fails: on a page with six slides and eight dots, a click on the last
  dot calls \<open>goToSlide(7)\<close>, and the index becomes 7, outside \<open>[0, 6)\<close>.
\<close>

theorem goToSlide_accepts_index_out_of_range:
  "\<not> in_range (length (storiaSliderImages (slider_load [{}, {}, {}, {}, {}, {}]
          [{}, {}, {}, {}, {}, {}, {}, {}] True True 0))) (Num 7)
   \<and> currentSlideIndex (slider_handle (ClickDot 7) (slider_load [{}, {}, {}, {}, {}, {}]
          [{}, {}, {}, {}, {}, {}, {}, {}] True True 0)) = Num 7"
  by (simp add: slider_load_def setInterval_def)

text \<open>
  Claim C3, amended. \<open>goToSlide(i)\<close> sets the index to \<open>i\<close> for every \<open>i\<close>, inside
  \<open>[0, N)\<close> or not: nothing is rejected and nothing wraps. The page calls it only from
  the click listener of dot \<open>k\<close>, which exists when there is at least one slide and
  \<open>k\<close> is below the number of dots, and then the index becomes \<open>k\<close>.
\<close>

theorem goToSlide_sets_index_unchecked:
  "currentSlideIndex (goToSlide i s) = i
   \<and> (0 < length (storiaSliderImages s) \<and> k < length (sliderDots s) \<longrightarrow>
        currentSlideIndex (slider_handle (ClickDot k) s) = Num (int k))"
  by simp

theorem goToSlide_sets_index_unchecked_witness:
  "currentSlideIndex (goToSlide (Num (- 3)) (slider_load [{}, {}] [{}, {}, {}] True True 0))
     = Num (- 3)
   \<and> currentSlideIndex (slider_handle (ClickDot 2) (slider_load [{}, {}] [{}, {}, {}] True True 0))
     = Num 2"
  using goToSlide_sets_index_unchecked
    [of "Num (- 3)" "slider_load [{}, {}] [{}, {}, {}] True True 0" 2]
  by (simp add: slider_load_def setInterval_def)

section \<open>Reviews banner: the visibility gate and the close button\<close>

text \<open>
  Claim C7. After \<open>checkBannerVisibility\<close> the banner carries the class \<open>visible\<close> if and
  only if \<open>scrollY >= start.top - viewportHeight/2\<close> and
  \<open>scrollY < end.top + end.height/2\<close>. With \<open>start.top = 1000\<close> and a viewport of 800,
  a scroll offset of 650 is past the start and one of 500 is not.
\<close>

theorem banner_visible_iff_between_sections:
  "(''visible'' \<in> banner_classList (checkBannerVisibility m b)) =
     (scrollY m \<ge> of_int (doveSiamo_offsetTop m) - of_int (innerHeight m) / 2
      \<and> scrollY m < of_int (contact_offsetTop m) + of_int (contact_offsetHeight m) / 2)
   \<and> pastDoveSiamo (m\<lparr>scrollY := 650, innerHeight := 800, doveSiamo_offsetTop := 1000\<rparr>)
   \<and> \<not> pastDoveSiamo (m\<lparr>scrollY := 500, innerHeight := 800, doveSiamo_offsetTop := 1000\<rparr>)"
  by (simp add: checkBannerVisibility_def pastDoveSiamo_def beforeContactMiddle_def
      classList_add_def classList_remove_def)

theorem banner_visible_iff_between_sections_witness:
  "''visible'' \<in> banner_classList (checkBannerVisibility
      \<lparr>scrollY = 650, innerHeight = 800, doveSiamo_offsetTop = 1000,
       doveSiamo_offsetHeight = 700, contact_offsetTop = 1700, contact_offsetHeight = 901\<rparr>
      \<lparr>banner_classList = {}, banner_style_display = [], reviewClose = True\<rparr>)
   \<and> ''visible'' \<notin> banner_classList (checkBannerVisibility
      \<lparr>scrollY = 4301 / 2, innerHeight = 800, doveSiamo_offsetTop = 1000,
       doveSiamo_offsetHeight = 700, contact_offsetTop = 1700, contact_offsetHeight = 901\<rparr>
      \<lparr>banner_classList = {''visible''}, banner_style_display = [], reviewClose = True\<rparr>)"
  using banner_visible_iff_between_sections
    [of "\<lparr>scrollY = 650, innerHeight = 800, doveSiamo_offsetTop = 1000,
       doveSiamo_offsetHeight = 700, contact_offsetTop = 1700, contact_offsetHeight = 901\<rparr>"
      "\<lparr>banner_classList = {}, banner_style_display = [], reviewClose = True\<rparr>"]
    banner_visible_iff_between_sections
    [of "\<lparr>scrollY = 4301 / 2, innerHeight = 800, doveSiamo_offsetTop = 1000,
       doveSiamo_offsetHeight = 700, contact_offsetTop = 1700, contact_offsetHeight = 901\<rparr>"
      "\<lparr>banner_classList = {''visible''}, banner_style_display = [], reviewClose = True\<rparr>"]
  by simp

lemma checkBannerVisibility_display [simp]:
  "banner_style_display (checkBannerVisibility m b) = banner_style_display b"
  "reviewClose (checkBannerVisibility m b) = reviewClose b"
  by (simp_all add: checkBannerVisibility_def)

lemma banner_handle_keeps_none:
  "banner_style_display b = ''none'' \<Longrightarrow> banner_style_display (banner_handle e b) = ''none''"
  by (cases e) (simp_all add: review_close_click_def)

lemma banner_events_keep_none:
  "banner_style_display b = ''none'' \<Longrightarrow> banner_style_display (banner_events es b) = ''none''"
  by (induction es arbitrary: b) (simp_all add: banner_handle_keeps_none)

text \<open>
  Claim C9. Once the close button has been clicked, the banner's inline \<open>display\<close> is
  \<open>none\<close> after every later sequence of scrolls and clicks; a scroll changes nothing but
  the class \<open>visible\<close>, whatever the scroll position.
\<close>

theorem banner_stays_hidden_after_close:
  assumes "reviewClose b"
  shows "banner_style_display (banner_events es (banner_handle CloseClick b)) = ''none''
    \<and> (\<forall>m b'. banner_style_display (banner_handle (Scroll m) b') = banner_style_display b'
          \<and> banner_classList (banner_handle (Scroll m) b') - {''visible''}
              = banner_classList b' - {''visible''})"
proof -
  have "banner_style_display (banner_handle CloseClick b) = ''none''"
    using assms by (simp add: review_close_click_def)
  then have "banner_style_display (banner_events es (banner_handle CloseClick b)) = ''none''"
    by (rule banner_events_keep_none)
  moreover have "banner_classList (banner_handle (Scroll m) b') - {''visible''}
              = banner_classList b' - {''visible''}" for m b'
    by (auto simp: checkBannerVisibility_def classList_add_def classList_remove_def)
  ultimately show ?thesis by simp
qed

text \<open>
  The theorem on a banner that is showing: it is closed, and the page is then scrolled
  into the band where the gate adds \<open>visible\<close> again; \<open>display\<close> is still \<open>none\<close>.
\<close>

theorem banner_stays_hidden_after_close_witness:
  "reviewClose \<lparr>banner_classList = {''visible''}, banner_style_display = [], reviewClose = True\<rparr>
   \<and> banner_style_display
        (banner_events
          [Scroll \<lparr>scrollY = 650, innerHeight = 800, doveSiamo_offsetTop = 1000,
                   doveSiamo_offsetHeight = 700, contact_offsetTop = 1700,
                   contact_offsetHeight = 901\<rparr>]
          (banner_handle CloseClick
            \<lparr>banner_classList = {''visible''}, banner_style_display = [], reviewClose = True\<rparr>))
       = ''none''
   \<and> ''visible'' \<in> banner_classList
        (banner_events
          [Scroll \<lparr>scrollY = 650, innerHeight = 800, doveSiamo_offsetTop = 1000,
                   doveSiamo_offsetHeight = 700, contact_offsetTop = 1700,
                   contact_offsetHeight = 901\<rparr>]
          (banner_handle CloseClick
            \<lparr>banner_classList = {''visible''}, banner_style_display = [], reviewClose = True\<rparr>))"
proof -
  have h: "reviewClose
    \<lparr>banner_classList = {''visible''}, banner_style_display = [], reviewClose = True\<rparr>"
    by simp
  have v: "''visible'' \<in> banner_classList
        (banner_events
          [Scroll \<lparr>scrollY = 650, innerHeight = 800, doveSiamo_offsetTop = 1000,
                   doveSiamo_offsetHeight = 700, contact_offsetTop = 1700,
                   contact_offsetHeight = 901\<rparr>]
          (banner_handle CloseClick
            \<lparr>banner_classList = {''visible''}, banner_style_display = [], reviewClose = True\<rparr>))"
    by (simp add: checkBannerVisibility_def pastDoveSiamo_def beforeContactMiddle_def
        review_close_click_def classList_add_def)
  from h v banner_stays_hidden_after_close [OF h] show ?thesis by blast
qed

section \<open>Layout switcher: one active tab, the matching displays\<close>

lemma remove_active_all_apply:
  "remove_active_all ts d x =
     (if x \<in> set ts then (d x)\<lparr>classes := classList_remove ''active'' (classes (d x))\<rparr> else d x)"
  unfolding remove_active_all_def
proof (induction ts arbitrary: d)
  case Nil
  show ?case by simp
next
  case (Cons t ts)
  show ?case
    by (simp only: fold_simps Cons.IH) (simp add: classList_remove_def)
qed

lemma update_displays_apply:
  "update_displays L ds d x =
     (if x \<in> set ds
      then (d x)\<lparr>classes := classList_toggle ''active'' (data_layout (d x) = L) (classes (d x))\<rparr>
      else d x)"
  unfolding update_displays_def
proof (induction ds arbitrary: d)
  case Nil
  show ?case by simp
next
  case (Cons a ds)
  show ?case
    by (simp only: fold_simps Cons.IH)
      (simp add: classList_toggle_def classList_add_def classList_remove_def)
qed

lemma layout_tab_click_data_layout [simp]:
  "data_layout (layout_tab_click ts ds tab d x) = data_layout (d x)"
  by (simp add: layout_tab_click_def Let_def update_displays_apply remove_active_all_apply)

lemma layout_tab_click_exclusive:
  assumes "set ts \<inter> set ds = {}" and "tab \<in> set ts"
  shows "t \<in> set ts \<Longrightarrow> (''active'' \<in> classes (layout_tab_click ts ds tab d t)) = (t = tab)"
    and "x \<in> set ds \<Longrightarrow>
           (''active'' \<in> classes (layout_tab_click ts ds tab d x))
             = (data_layout (d x) = data_layout (d tab))"
proof -
  assume "t \<in> set ts"
  with assms have "t \<notin> set ds" by blast
  with assms \<open>t \<in> set ts\<close>
  show "(''active'' \<in> classes (layout_tab_click ts ds tab d t)) = (t = tab)"
    by (simp add: layout_tab_click_def Let_def update_displays_apply remove_active_all_apply
        classList_add_def classList_remove_def)
next
  assume "x \<in> set ds"
  with assms have "x \<noteq> tab" by blast
  with assms \<open>x \<in> set ds\<close>
  show "(''active'' \<in> classes (layout_tab_click ts ds tab d x))
          = (data_layout (d x) = data_layout (d tab))"
    by (simp add: layout_tab_click_def Let_def update_displays_apply remove_active_all_apply
        classList_toggle_def classList_add_def classList_remove_def)
qed

lemma layout_tab_clicks_snoc:
  "layout_tab_clicks ts ds (cs @ [tab]) d = layout_tab_click ts ds tab (layout_tab_clicks ts ds cs d)"
  by (induction cs arbitrary: d) simp_all

text \<open>
  Claim C10. On a page where no element is both a tab and a display, after any sequence
  of clicks that ends with a click on the tab \<open>tab\<close>, from any assignment of classes:
  a tab carries \<open>active\<close> if and only if it is \<open>tab\<close>, and a display carries \<open>active\<close>
  if and only if its \<open>data-layout\<close> equals that of \<open>tab\<close>.
\<close>

theorem layout_tabs_mutually_exclusive:
  assumes "set layoutTabs \<inter> set layoutDisplays = {}" and "tab \<in> set layoutTabs"
  shows "(\<forall>t \<in> set layoutTabs.
            (''active'' \<in> classes (layout_tab_clicks layoutTabs layoutDisplays (clicks @ [tab]) d t))
              = (t = tab))
    \<and> (\<forall>x \<in> set layoutDisplays.
            (''active'' \<in> classes (layout_tab_clicks layoutTabs layoutDisplays (clicks @ [tab]) d x))
              = (data_layout (layout_tab_clicks layoutTabs layoutDisplays (clicks @ [tab]) d x)
                   = data_layout (layout_tab_clicks layoutTabs layoutDisplays (clicks @ [tab]) d tab)))"
  using layout_tab_click_exclusive [OF assms]
  by (simp add: layout_tab_clicks_snoc)

text \<open>
  The theorem on the example page, whose starting classes mark two tabs and two displays
  active: the clicks go to tabs 2, 0 and then 1.
\<close>

theorem layout_tabs_mutually_exclusive_witness:
  "set [0, 1, 2] \<inter> set [10, 11, 12] = ({} :: nat set) \<and> (1 :: nat) \<in> set [0, 1, 2]
   \<and> ''active'' \<notin> classes (layout_tab_clicks [0, 1, 2] [10, 11, 12] ([2, 0] @ [1]) example_dom 0)
   \<and> ''active'' \<in> classes (layout_tab_clicks [0, 1, 2] [10, 11, 12] ([2, 0] @ [1]) example_dom 1)
   \<and> ''active'' \<notin> classes (layout_tab_clicks [0, 1, 2] [10, 11, 12] ([2, 0] @ [1]) example_dom 2)
   \<and> ''active'' \<notin> classes (layout_tab_clicks [0, 1, 2] [10, 11, 12] ([2, 0] @ [1]) example_dom 10)
   \<and> ''active'' \<in> classes (layout_tab_clicks [0, 1, 2] [10, 11, 12] ([2, 0] @ [1]) example_dom 11)
   \<and> ''active'' \<notin> classes (layout_tab_clicks [0, 1, 2] [10, 11, 12] ([2, 0] @ [1]) example_dom 12)"
proof -
  have 1: "set [0, 1, 2] \<inter> set [10, 11, 12] = ({} :: nat set)" by simp
  have 2: "(1 :: nat) \<in> set [0, 1, 2]" by simp
  have dl: "data_layout (layout_tab_clicks [0, 1, 2] [10, 11, 12] ([2, 0] @ [1]) example_dom x)
              = data_layout (example_dom x)" for x
    by simp
  show ?thesis
    using layout_tabs_mutually_exclusive [OF 1 2, of "[2, 0]" example_dom]
    unfolding dl by (simp add: example_dom_def)
qed

text \<open>
  The hypothesis on the page is needed: if element 1 is a tab and also a display, with the
  \<open>data-layout\<close> of tab 0, a click on tab 0 leaves both tabs active.
\<close>

lemma layout_tab_click_shared_element:
  "''active'' \<in> classes (layout_tab_click [0, 1] [1] 0
      (\<lambda>_. \<lparr>classes = {}, data_layout = Some ''banquet''\<rparr>) 1)"
  by (simp add: layout_tab_click_def Let_def update_displays_def remove_active_all_def
      classList_add_def classList_remove_def)

section \<open>Contact form: the field checks and the submit handler\<close>

lemma js_trim_Nil [simp]: "js_trim [] = []"
  by (simp add: js_trim_def)

lemma js_trim_eq_Nil: "(js_trim s = []) = (\<forall>c \<in> set s. is_whitespace c)"
proof (cases "dropWhile is_whitespace s")
  case Nil
  then have "\<forall>c \<in> set s. is_whitespace c" by (simp add: dropWhile_eq_Nil_conv)
  moreover have "js_trim s = []" unfolding js_trim_def Nil by simp
  ultimately show ?thesis by simp
next
  case (Cons c t)
  then have "\<not> is_whitespace c" using hd_dropWhile [of is_whitespace s] by auto
  moreover have "c \<in> set (dropWhile is_whitespace s)" using Cons by simp
  ultimately have "js_trim s \<noteq> []"
    by (auto simp: js_trim_def dropWhile_eq_Nil_conv)
  moreover have "\<not> (\<forall>c \<in> set s. is_whitespace c)"
    using Cons by (metis dropWhile_eq_Nil_conv list.distinct(1))
  ultimately show ?thesis by simp
qed

lemma StringToNumber_blank: "js_trim s = [] \<Longrightarrow> StringToNumber s = Finite 0"
  by (simp add: StringToNumber_def)

lemma regex_test_OneOrMore:
  "regex_test (OneOrMore P # r) s =
     (\<exists>A B. s = A @ B \<and> A \<noteq> [] \<and> (\<forall>c \<in> set A. P c) \<and> regex_test r B)"
proof (induction s)
  case Nil
  show ?case by simp
next
  case (Cons c s)
  show ?case
  proof
    assume "regex_test (OneOrMore P # r) (c # s)"
    then have c: "P c" and d: "regex_test (OneOrMore P # r) s \<or> regex_test r s" by simp_all
    from d show "\<exists>A B. c # s = A @ B \<and> A \<noteq> [] \<and> (\<forall>c \<in> set A. P c) \<and> regex_test r B"
    proof
      assume "regex_test (OneOrMore P # r) s"
      with Cons.IH obtain A B where "s = A @ B" "\<forall>c \<in> set A. P c" "regex_test r B" by blast
      with c have "c # s = (c # A) @ B \<and> c # A \<noteq> [] \<and> (\<forall>x \<in> set (c # A). P x) \<and> regex_test r B"
        by simp
      then show ?thesis by blast
    next
      assume "regex_test r s"
      with c have "c # s = [c] @ s \<and> [c] \<noteq> [] \<and> (\<forall>x \<in> set [c]. P x) \<and> regex_test r s"
        by simp
      then show ?thesis by blast
    qed
  next
    assume "\<exists>A B. c # s = A @ B \<and> A \<noteq> [] \<and> (\<forall>c \<in> set A. P c) \<and> regex_test r B"
    then obtain A B where ab: "c # s = A @ B" "A \<noteq> []" "\<forall>c \<in> set A. P c" "regex_test r B"
      by blast
    then obtain A' where A: "A = c # A'" "s = A' @ B" by (cases A) auto
    show "regex_test (OneOrMore P # r) (c # s)"
    proof (cases "A' = []")
      case True
      with A ab show ?thesis by simp
    next
      case False
      with A ab have "regex_test (OneOrMore P # r) s" using Cons.IH by auto
      with A ab show ?thesis by simp
    qed
  qed
qed

lemma regex_test_One:
  "regex_test (One P # r) s = (\<exists>c B. s = c # B \<and> P c \<and> regex_test r B)"
  by (cases s) simp_all

lemma regex_test_emailRegex:
  "regex_test emailRegex t =
     (\<exists>A B C. t = A @ [64] @ B @ [46] @ C \<and> A \<noteq> [] \<and> B \<noteq> [] \<and> C \<noteq> []
        \<and> (\<forall>c \<in> set (A @ B @ C). \<not> is_whitespace c \<and> c \<noteq> 64))"
proof -
  have last: "regex_test [OneOrMore P] s = (s \<noteq> [] \<and> (\<forall>c \<in> set s. P c))" for P s
    by (auto simp: regex_test_OneOrMore)
  have tail: "regex_test [One (\<lambda>c. c = 46), OneOrMore P] s
                = (\<exists>C. s = [46] @ C \<and> C \<noteq> [] \<and> (\<forall>c \<in> set C. P c))" for P s
    by (auto simp: regex_test_One last)
  have mid: "regex_test [OneOrMore P, One (\<lambda>c. c = 46), OneOrMore P] s
                = (\<exists>B C. s = B @ [46] @ C \<and> B \<noteq> [] \<and> C \<noteq> []
                     \<and> (\<forall>c \<in> set (B @ C). P c))" for P s
    unfolding regex_test_OneOrMore [of P "[One (\<lambda>c. c = 46), OneOrMore P]"] tail
    by (rule iffI; clarsimp; blast)
  have at: "regex_test [One (\<lambda>c. c = 64), OneOrMore P, One (\<lambda>c. c = 46), OneOrMore P] s
                = (\<exists>B C. s = [64] @ B @ [46] @ C \<and> B \<noteq> [] \<and> C \<noteq> []
                     \<and> (\<forall>c \<in> set (B @ C). P c))" for P s
    unfolding regex_test_One mid by auto
  have "regex_test emailRegex t
          = (\<exists>A B C. t = A @ [64] @ B @ [46] @ C \<and> A \<noteq> [] \<and> B \<noteq> [] \<and> C \<noteq> []
               \<and> (\<forall>c \<in> set (A @ B @ C). not_space_or_at c))"
    unfolding emailRegex_def
      regex_test_OneOrMore [of not_space_or_at
        "[One (\<lambda>c. c = 64), OneOrMore not_space_or_at, One (\<lambda>c. c = 46),
          OneOrMore not_space_or_at]"] at
    by (rule iffI; clarsimp; blast)
  then show ?thesis by (simp add: not_space_or_at_def)
qed

lemma mark_error_mem:
  "(''error'' \<in> fst (mark_error c g st) x) = (c \<and> x = g \<or> ''error'' \<in> fst st x)"
  by (simp add: mark_error_def classList_add_def)

lemma mark_error_snd: "snd (mark_error c g st) = (snd st \<and> \<not> c)"
  by (simp add: mark_error_def)

lemma clear_errors_mem:
  "(''error'' \<in> fold (\<lambda>group c. c(group := classList_remove ''error'' (c group))) gs cls x) =
     (x \<notin> set gs \<and> ''error'' \<in> cls x)"
proof (induction gs arbitrary: cls)
  case Nil
  show ?case by simp
next
  case (Cons g gs)
  show ?case
    by (simp only: fold_simps Cons.IH) (auto simp: classList_remove_def)
qed

lemma contactForm_submit_groups:
  "(''error'' \<in> groups (contactForm_submit formGroups closest val cls) x) =
     ((\<exists>f. x = closest f \<and> field_fails f (val f))
      \<or> (x \<notin> set formGroups \<and> ''error'' \<in> cls x))"
proof -
  have ex: "(\<exists>f. x = closest f \<and> field_fails f (val f)) =
      (x = closest Name \<and> field_fails Name (val Name)
       \<or> x = closest Email \<and> field_fails Email (val Email)
       \<or> x = closest Phone \<and> field_fails Phone (val Phone)
       \<or> x = closest EventDate \<and> field_fails EventDate (val EventDate)
       \<or> x = closest Guests \<and> field_fails Guests (val Guests)
       \<or> x = closest Message \<and> field_fails Message (val Message))"
    (is "?L = ?R")
  proof
    assume ?L
    then obtain f where "x = closest f" "field_fails f (val f)" by blast
    then show ?R by (cases f) simp_all
  next
    assume ?R
    then show ?L by blast
  qed
  have "groups (contactForm_submit formGroups closest val cls) =
      fst (mark_error (field_fails Message (val Message)) (closest Message)
        (mark_error (field_fails Guests (val Guests)) (closest Guests)
          (mark_error (field_fails EventDate (val EventDate)) (closest EventDate)
            (mark_error (field_fails Phone (val Phone)) (closest Phone)
              (mark_error (field_fails Email (val Email)) (closest Email)
                (mark_error (field_fails Name (val Name)) (closest Name)
                  (fold (\<lambda>group c. c(group := classList_remove ''error'' (c group))) formGroups cls,
                   True)))))))"
    by (simp add: contactForm_submit_def Let_def)
  then show ?thesis
    unfolding ex by (simp only: mark_error_mem fst_conv clear_errors_mem) blast
qed

lemma contactForm_submit_isValid:
  "isValid (contactForm_submit formGroups closest val cls) = (\<forall>f. \<not> field_fails f (val f))"
proof -
  have all: "(\<forall>f. \<not> field_fails f (val f)) =
      (\<not> field_fails Name (val Name) \<and> \<not> field_fails Email (val Email)
       \<and> \<not> field_fails Phone (val Phone) \<and> \<not> field_fails EventDate (val EventDate)
       \<and> \<not> field_fails Guests (val Guests) \<and> \<not> field_fails Message (val Message))"
    (is "?L = ?R")
  proof
    assume ?L then show ?R by blast
  next
    assume r: ?R
    show ?L
    proof
      fix f from r show "\<not> field_fails f (val f)" by (cases f) simp_all
    qed
  qed
  have "isValid (contactForm_submit formGroups closest val cls) =
      snd (mark_error (field_fails Message (val Message)) (closest Message)
        (mark_error (field_fails Guests (val Guests)) (closest Guests)
          (mark_error (field_fails EventDate (val EventDate)) (closest EventDate)
            (mark_error (field_fails Phone (val Phone)) (closest Phone)
              (mark_error (field_fails Email (val Email)) (closest Email)
                (mark_error (field_fails Name (val Name)) (closest Name)
                  (fold (\<lambda>group c. c(group := classList_remove ''error'' (c group))) formGroups cls,
                   True)))))))"
    by (simp add: contactForm_submit_def Let_def)
  also have "\<dots> = (\<forall>f. \<not> field_fails f (val f))"
    unfolding all by (simp only: mark_error_snd snd_conv) blast
  finally show ?thesis .
qed

lemma contactForm_submit_effects:
  "popup_shown (contactForm_submit formGroups closest val cls)
     = isValid (contactForm_submit formGroups closest val cls)"
  "submit_scheduled (contactForm_submit formGroups closest val cls)
     = isValid (contactForm_submit formGroups closest val cls)"
  by (simp_all add: contactForm_submit_def Let_def)

lemma contactForm_submit_marks:
  assumes "inj closest" and "range closest \<subseteq> set formGroups"
  shows "(''error'' \<in> groups (contactForm_submit formGroups closest val cls) (closest f))
           = field_fails f (val f)"
proof -
  have "closest f \<in> set formGroups" using assms(2) by blast
  moreover have "(\<exists>f'. closest f = closest f' \<and> field_fails f' (val f')) = field_fails f (val f)"
    using assms(1) by (auto dest: injD)
  ultimately show ?thesis
    by (simp only: contactForm_submit_groups) blast
qed

lemma field_fails_empty: "field_fails f []"
  by (cases f) (simp_all add: emailRegex_def)


subsection \<open>The definitions at concrete values\<close>

lemmas StringToNumber_parse =
  StringToNumber_def ascii_def js_trim_def is_whitespace_def NonDecimalIntegerLiteral_def
  StrDecimalLiteral_def StrUnsignedDecimalLiteral_def is_digit_def ExponentPart_opt_def
  SignedInteger_def all_digits_def digits_value_def digit_of_def pow10_def Let_def

lemma floor_log2_5: "floor_log2 5 = 2"
  by (simp add: floor_log2_def bit_length.simps)

lemma floor_log2_half: "floor_log2 (1 / 2) = - 1"
  by (simp add: floor_log2_def bit_length.simps)

lemma to_double_0: "to_double 0 = Finite 0"
  by (simp add: to_double_def)

lemma to_double_5: "to_double 5 = Finite 5"
  by (simp add: to_double_def floor_log2_5 pow2_def round_half_even_def Let_def)

lemma to_double_half: "to_double (1 / 2) = Finite (1 / 2)"
  by (simp add: to_double_def floor_log2_half pow2_def round_half_even_def Let_def)

lemma StringToNumber_0: "StringToNumber (ascii ''0'') = Finite 0"
  by (simp add: StringToNumber_parse to_double_0)

lemma StringToNumber_5: "StringToNumber (ascii ''5'') = Finite 5"
  by (simp add: StringToNumber_parse to_double_5)

lemma StringToNumber_half: "StringToNumber (ascii ''0.5'') = Finite (1 / 2)"
  by (simp add: StringToNumber_parse to_double_half)

lemma StringToNumber_abc: "StringToNumber (ascii ''abc'') = NotANumber"
  by (simp add: StringToNumber_parse)

lemma ascii_not_Nil: "ascii ''0'' \<noteq> []" "ascii ''5'' \<noteq> []" "ascii ''0.5'' \<noteq> []"
  by (simp_all add: ascii_def)

lemmas regex_eval = emailRegex_def not_space_or_at_def is_whitespace_def ascii_def js_trim_def

lemma field_id_UNIV: "(UNIV :: field_id set) = {Name, Email, Phone, EventDate, Guests, Message}"
proof -
  have "x \<in> {Name, Email, Phone, EventDate, Guests, Message}" for x :: field_id
    by (cases x) simp_all
  then show ?thesis by blast
qed

lemma example_page:
  "inj (\<lambda>f :: field_id. f)" "range (\<lambda>f :: field_id. f) \<subseteq> set example_formGroups"
  by (simp_all add: example_formGroups_def field_id_UNIV)

lemma example_values_pass:
  "\<not> field_fails Email (example_values Email)" "\<not> field_fails Phone (example_values Phone)"
  "\<not> field_fails EventDate (example_values EventDate)"
  "\<not> field_fails Guests (example_values Guests)"
proof -
  show "\<not> field_fails Email (example_values Email)" by (simp add: regex_eval)
  show "\<not> field_fails Phone (example_values Phone)" by (simp add: regex_eval)
  show "\<not> field_fails EventDate (example_values EventDate)" by (simp add: ascii_def)
  show "\<not> field_fails Guests (example_values Guests)"
    using ascii_not_Nil by (simp add: StringToNumber_5)
qed

subsection \<open>The number check\<close>

lemma validateField_number:
  assumes "required f" and "ftype f = ''number''"
  shows "(''error'' \<notin> validateField f cl)
           = (fvalue f \<noteq> [] \<and> js_lt (Finite 0) (StringToNumber (fvalue f)))"
proof (cases "js_trim (fvalue f) = []")
  case True
  then have "StringToNumber (fvalue f) = Finite 0" by (rule StringToNumber_blank)
  with True assms show ?thesis by (simp add: validateField_def classList_add_def)
next
  case False
  then have "fvalue f \<noteq> []" by auto
  with False assms show ?thesis
    by (simp add: validateField_def classList_add_def classList_remove_def)
qed

text \<open>
  \<open>validateField\<close> applies the rule of the specification to every value of a required
  field of type \<open>number\<close>.
\<close>

lemma validateField_number_meets_rule:
  assumes "required f" and "ftype f = ''number''"
  shows "(''error'' \<notin> validateField f cl) = spec_required_positive_number (fvalue f)"
  using validateField_number [OF assms] by (simp add: spec_required_positive_number_def)

text \<open>The submit handler and \<open>validateField\<close> both reject \<open>0\<close> and both accept \<open>5\<close>.\<close>

lemma guests_checks_on_0_and_5:
  "field_fails Guests (ascii ''0'')"
  "\<not> field_fails Guests (ascii ''5'')"
  "''error'' \<in> validateField \<lparr>required = True, ftype = ''number'', fvalue = ascii ''0''\<rparr> cl"
  "''error'' \<notin> validateField \<lparr>required = True, ftype = ''number'', fvalue = ascii ''5''\<rparr> cl"
proof -
  show "field_fails Guests (ascii ''0'')" by (simp add: StringToNumber_0)
  show "\<not> field_fails Guests (ascii ''5'')" using ascii_not_Nil by (simp add: StringToNumber_5)
  show "''error'' \<in> validateField \<lparr>required = True, ftype = ''number'', fvalue = ascii ''0''\<rparr> cl"
    using validateField_number [of "\<lparr>required = True, ftype = ''number'', fvalue = ascii ''0''\<rparr>" cl]
    by (simp add: StringToNumber_0)
  show "''error'' \<notin> validateField \<lparr>required = True, ftype = ''number'', fvalue = ascii ''5''\<rparr> cl"
    using validateField_number [of "\<lparr>required = True, ftype = ''number'', fvalue = ascii ''5''\<rparr>" cl]
      ascii_not_Nil
    by (simp add: StringToNumber_5)
qed

text \<open>On a value that converts to an integer the two checks agree.\<close>

lemma guests_checks_agree_on_integers:
  assumes "v \<noteq> []" and "StringToNumber v = Finite (of_int k)"
  shows "(\<not> field_fails Guests v) = js_lt (Finite 0) (StringToNumber v)"
proof -
  have "(\<not> (of_int k :: rat) < 1) = ((0 :: rat) < of_int k)"
    by (metis of_int_0_less_iff of_int_less_1_iff not_less zless_iff_Suc_zadd
        int_one_le_iff_zero_less)
  with assms show ?thesis by simp
qed

text \<open>
  Claim C4, at the inputs where the code departs from it. The value \<open>0.5\<close> is not empty
  and its numeric value is greater than 0: \<open>validateField\<close> passes it, and the submit
  handler, whose test is \<open>guests.value < 1\<close>, marks the guests field. The value
  \<open>abc\<close> has no numeric value: \<open>validateField\<close> marks it, and the submit handler,
  for which \<open>NaN < 1\<close> is false, passes it.
\<close>

theorem guests_submit_check_departs_from_rule:
  "spec_required_positive_number (ascii ''0.5'')
   \<and> ''error'' \<in> groups (contactForm_submit example_formGroups (\<lambda>f. f)
        (example_values(Guests := ascii ''0.5'')) example_classes) Guests
   \<and> ''error'' \<notin> validateField \<lparr>required = True, ftype = ''number'', fvalue = ascii ''0.5''\<rparr>
        {''form-group'', ''error''}
   \<and> \<not> spec_required_positive_number (ascii ''abc'')
   \<and> ''error'' \<notin> groups (contactForm_submit example_formGroups (\<lambda>f. f)
        (example_values(Guests := ascii ''abc'')) example_classes) Guests
   \<and> ''error'' \<in> validateField \<lparr>required = True, ftype = ''number'', fvalue = ascii ''abc''\<rparr>
        {''form-group''}"
proof -
  have half_rule: "spec_required_positive_number (ascii ''0.5'')"
    using ascii_not_Nil by (simp add: spec_required_positive_number_def StringToNumber_half)
  have "field_fails Guests ((example_values(Guests := ascii ''0.5'')) Guests)"
    by (simp add: StringToNumber_half)
  then have half_submit: "''error'' \<in> groups (contactForm_submit example_formGroups (\<lambda>f. f)
        (example_values(Guests := ascii ''0.5'')) example_classes) Guests"
    unfolding contactForm_submit_marks [OF example_page] .
  have half_blur: "''error'' \<notin> validateField
      \<lparr>required = True, ftype = ''number'', fvalue = ascii ''0.5''\<rparr> {''form-group'', ''error''}"
    using validateField_number
      [of "\<lparr>required = True, ftype = ''number'', fvalue = ascii ''0.5''\<rparr>"
        "{''form-group'', ''error''}"] ascii_not_Nil
    by (simp add: StringToNumber_half)
  have abc_rule: "\<not> spec_required_positive_number (ascii ''abc'')"
    by (simp add: spec_required_positive_number_def StringToNumber_abc)
  have abc_ne: "ascii ''abc'' \<noteq> []" by (simp add: ascii_def)
  then have "\<not> field_fails Guests ((example_values(Guests := ascii ''abc'')) Guests)"
    by (simp add: StringToNumber_abc)
  then have abc_submit: "''error'' \<notin> groups (contactForm_submit example_formGroups (\<lambda>f. f)
        (example_values(Guests := ascii ''abc'')) example_classes) Guests"
    unfolding contactForm_submit_marks [OF example_page] .
  have abc_blur: "''error'' \<in> validateField
      \<lparr>required = True, ftype = ''number'', fvalue = ascii ''abc''\<rparr> {''form-group''}"
    using validateField_number
      [of "\<lparr>required = True, ftype = ''number'', fvalue = ascii ''abc''\<rparr>" "{''form-group''}"]
    by (simp add: StringToNumber_abc)
  from half_rule half_submit half_blur abc_rule abc_submit abc_blur show ?thesis by blast
qed

subsection \<open>The email check\<close>

lemma validateField_email:
  assumes "required f" and "ftype f = ''email''"
  shows "(''error'' \<notin> validateField f cl) = (\<not> field_fails Email (fvalue f))"
proof (cases "js_trim (fvalue f) = []")
  case True
  with assms show ?thesis
    by (simp add: validateField_def classList_add_def emailRegex_def)
next
  case False
  with assms show ?thesis
    by (simp add: validateField_def classList_add_def classList_remove_def)
qed

text \<open>
  Claim C5 as stated fails: the value \<open>a b@c.d\<close> is not empty, has exactly one \<open>@\<close>,
  a character that is not white space before it and a dot followed by a label after it,
  and the code rejects it, since the pattern allows no white space inside the value.
\<close>

theorem email_check_rejects_inner_space:
  "spec_required_email (ascii ''a b@c.d'')
   \<and> ''error'' \<in> groups (contactForm_submit example_formGroups (\<lambda>f. f)
        (example_values(Email := ascii ''a b@c.d'')) example_classes) Email
   \<and> ''error'' \<in> validateField \<lparr>required = True, ftype = ''email'', fvalue = ascii ''a b@c.d''\<rparr> {}"
proof -
  have f: "field_fails Email (ascii ''a b@c.d'')"
    by (simp add: regex_eval)
  then have "field_fails Email ((example_values(Email := ascii ''a b@c.d'')) Email)"
    by simp
  then have "''error'' \<in> groups (contactForm_submit example_formGroups (\<lambda>f. f)
        (example_values(Email := ascii ''a b@c.d'')) example_classes) Email"
    unfolding contactForm_submit_marks [OF example_page] .
  moreover have "spec_required_email (ascii ''a b@c.d'')"
    by (simp add: spec_required_email_def regex_eval)
  moreover have "''error'' \<in> validateField
      \<lparr>required = True, ftype = ''email'', fvalue = ascii ''a b@c.d''\<rparr> {}"
    using validateField_email [of "\<lparr>required = True, ftype = ''email'', fvalue = ascii ''a b@c.d''\<rparr>" "{}"] f
    by simp
  ultimately show ?thesis by simp
qed

text \<open>
  Claim C5, amended. The email check, on submit and when a required field of type
  \<open>email\<close> loses the focus, passes if and only if the trimmed value is \<open>A@B.C\<close> where
  \<open>A\<close>, \<open>B\<close> and \<open>C\<close> are not empty and contain neither white space nor \<open>@\<close>: so
  exactly one \<open>@\<close>, at least one character before it, after it a dot with at least one
  character on each side, and no white space anywhere inside. \<open>a@b.co\<close> passes and
  \<open>abc\<close> fails.
\<close>

theorem required_email_check:
  "(\<not> field_fails Email v) =
     (\<exists>A B C. js_trim v = A @ [64] @ B @ [46] @ C \<and> A \<noteq> [] \<and> B \<noteq> [] \<and> C \<noteq> []
        \<and> (\<forall>c \<in> set (A @ B @ C). \<not> is_whitespace c \<and> c \<noteq> 64))
   \<and> (inj closest \<and> range closest \<subseteq> set formGroups \<longrightarrow>
        (''error'' \<notin> groups (contactForm_submit formGroups closest val cls) (closest Email))
          = (\<not> field_fails Email (val Email)))
   \<and> (required f \<and> ftype f = ''email'' \<longrightarrow>
        (''error'' \<notin> validateField f cl) = (\<not> field_fails Email (fvalue f)))
   \<and> \<not> field_fails Email (ascii ''a@b.co'')
   \<and> field_fails Email (ascii ''abc'')"
proof -
  have shape: "(\<not> field_fails Email v) =
     (\<exists>A B C. js_trim v = A @ [64] @ B @ [46] @ C \<and> A \<noteq> [] \<and> B \<noteq> [] \<and> C \<noteq> []
        \<and> (\<forall>c \<in> set (A @ B @ C). \<not> is_whitespace c \<and> c \<noteq> 64))"
    by (simp only: field_fails.simps not_not regex_test_emailRegex)
  have submit: "inj closest \<and> range closest \<subseteq> set formGroups \<longrightarrow>
        (''error'' \<notin> groups (contactForm_submit formGroups closest val cls) (closest Email))
          = (\<not> field_fails Email (val Email))"
    using contactForm_submit_marks [of closest formGroups val cls Email] by blast
  have blur: "required f \<and> ftype f = ''email'' \<longrightarrow>
        (''error'' \<notin> validateField f cl) = (\<not> field_fails Email (fvalue f))"
    using validateField_email by blast
  have ok: "\<not> field_fails Email (ascii ''a@b.co'')" by (simp add: regex_eval)
  have bad: "field_fails Email (ascii ''abc'')" by (simp add: regex_eval)
  from shape submit blur ok bad show ?thesis by blast
qed

text \<open>
  The theorem on the value \<open>a@b.co\<close> between two spaces, which \<open>trim()\<close> removes: it
  has the shape with \<open>A = a\<close>, \<open>B = b\<close> and \<open>C = co\<close>, and both checks pass it.
\<close>

theorem required_email_check_witness:
  "js_trim (ascii '' a@b.co '') = ascii ''a'' @ [64] @ ascii ''b'' @ [46] @ ascii ''co''
   \<and> \<not> field_fails Email (ascii '' a@b.co '')
   \<and> inj (\<lambda>f :: field_id. f) \<and> range (\<lambda>f :: field_id. f) \<subseteq> set example_formGroups
   \<and> ''error'' \<notin> groups (contactForm_submit example_formGroups (\<lambda>f. f)
        (example_values(Email := ascii '' a@b.co '')) example_classes) Email
   \<and> required \<lparr>required = True, ftype = ''email'', fvalue = ascii '' a@b.co ''\<rparr>
   \<and> ftype \<lparr>required = True, ftype = ''email'', fvalue = ascii '' a@b.co ''\<rparr> = ''email''
   \<and> ''error'' \<notin> validateField \<lparr>required = True, ftype = ''email'', fvalue = ascii '' a@b.co ''\<rparr>
        {''form-group'', ''error''}"
proof -
  have t: "js_trim (ascii '' a@b.co '')
             = ascii ''a'' @ [64] @ ascii ''b'' @ [46] @ ascii ''co''"
    by (simp add: regex_eval)
  have "ascii ''a'' \<noteq> [] \<and> ascii ''b'' \<noteq> [] \<and> ascii ''co'' \<noteq> []
          \<and> (\<forall>c \<in> set (ascii ''a'' @ ascii ''b'' @ ascii ''co''). \<not> is_whitespace c \<and> c \<noteq> 64)"
    by (simp add: regex_eval)
  with t have ex: "\<exists>A B C. js_trim (ascii '' a@b.co '') = A @ [64] @ B @ [46] @ C
        \<and> A \<noteq> [] \<and> B \<noteq> [] \<and> C \<noteq> []
        \<and> (\<forall>c \<in> set (A @ B @ C). \<not> is_whitespace c \<and> c \<noteq> 64)"
    by blast
  note inst = required_email_check
    [of "ascii '' a@b.co ''" "\<lambda>f. f" example_formGroups
      "example_values(Email := ascii '' a@b.co '')" example_classes
      "\<lparr>required = True, ftype = ''email'', fvalue = ascii '' a@b.co ''\<rparr>"
      "{''form-group'', ''error''}"]
  from inst ex have pass: "\<not> field_fails Email (ascii '' a@b.co '')" by blast
  with inst example_page t show ?thesis by simp
qed

subsection \<open>The whole form\<close>

text \<open>
  What the submit handler marks, on a page where every field has a group of its own
  inside the form: the groups of the fields that fail the handler's checks, whatever
  they carried before.
\<close>

lemma contactForm_submit_marked_fields:
  assumes "inj closest" and "range closest \<subseteq> set formGroups"
  shows "{f. ''error'' \<in> groups (contactForm_submit formGroups closest val cls) (closest f)}
           = {f. field_fails f (val f)}"
  by (simp only: contactForm_submit_marks [OF assms])

lemma example_values_fraction_fail:
  "{f. field_fails f (example_values_fraction f)} = {Name, Guests, Message}"
proof -
  have "field_fails f (example_values_fraction f) = (f = Name \<or> f = Guests \<or> f = Message)" for f
    using example_values_pass(1-3)
    by (cases f) (simp_all add: example_values_fraction_def StringToNumber_half)
  then show ?thesis by blast
qed

text \<open>
  Claim C6, at the input where the code departs from it. On the example form the name
  and the message are empty and the other four fields satisfy their rules, the guests
  field with the value \<open>0.5\<close>. The handler reports the form invalid and marks three
  fields: the two empty ones and the guests field, which its test \<open>guests.value < 1\<close>
  rejects.
\<close>

theorem submit_marks_third_field_on_fractional_guests:
  "example_values_fraction Name = [] \<and> example_values_fraction Message = []
   \<and> example_values_fraction Email \<noteq> [] \<and> example_values_fraction Phone \<noteq> []
   \<and> example_values_fraction EventDate \<noteq> [] \<and> example_values_fraction Guests \<noteq> []
   \<and> spec_field_rule Email (example_values_fraction Email)
   \<and> spec_field_rule Phone (example_values_fraction Phone)
   \<and> spec_field_rule EventDate (example_values_fraction EventDate)
   \<and> spec_field_rule Guests (example_values_fraction Guests)
   \<and> \<not> isValid (contactForm_submit example_formGroups (\<lambda>f. f) example_values_fraction
            example_classes)
   \<and> {f. ''error'' \<in> groups (contactForm_submit example_formGroups (\<lambda>f. f)
            example_values_fraction example_classes) f} = {Name, Guests, Message}"
proof -
  have empty: "example_values_fraction Name = []" "example_values_fraction Message = []"
    by (simp_all add: example_values_fraction_def)
  have filled: "example_values_fraction Email \<noteq> []" "example_values_fraction Phone \<noteq> []"
    "example_values_fraction EventDate \<noteq> []" "example_values_fraction Guests \<noteq> []"
    by (simp_all add: example_values_fraction_def ascii_def)
  have email: "spec_field_rule Email (example_values_fraction Email)"
    by (simp add: example_values_fraction_def spec_required_email_def regex_eval)
  have phone: "spec_field_rule Phone (example_values_fraction Phone)"
    by (simp add: example_values_fraction_def regex_eval)
  have date: "spec_field_rule EventDate (example_values_fraction EventDate)"
    by (simp add: example_values_fraction_def regex_eval)
  have guests: "spec_field_rule Guests (example_values_fraction Guests)"
    using ascii_not_Nil
    by (simp add: example_values_fraction_def spec_required_positive_number_def
        StringToNumber_half)
  have "field_fails Name (example_values_fraction Name)"
    by (simp add: example_values_fraction_def)
  then have invalid: "\<not> isValid (contactForm_submit example_formGroups (\<lambda>f. f)
      example_values_fraction example_classes)"
    unfolding contactForm_submit_isValid by blast
  have marked: "{f. ''error'' \<in> groups (contactForm_submit example_formGroups (\<lambda>f. f)
      example_values_fraction example_classes) f} = {Name, Guests, Message}"
    using contactForm_submit_marked_fields [OF example_page, of example_values_fraction
        example_classes] example_values_fraction_fail
    by simp
  from empty filled email phone date guests invalid marked show ?thesis by blast
qed

text \<open>
  When the four other fields pass the handler's own checks, the handler marks exactly the
  two empty fields, and neither the popup nor the submission happens.
\<close>

lemma submit_two_empty_fields_handler_checks:
  assumes "inj closest" and "range closest \<subseteq> set formGroups"
    and "val f1 = []" and "val f2 = []"
    and "\<forall>f. f \<noteq> f1 \<and> f \<noteq> f2 \<longrightarrow> \<not> field_fails f (val f)"
  shows "\<not> isValid (contactForm_submit formGroups closest val cls)
    \<and> {f. ''error'' \<in> groups (contactForm_submit formGroups closest val cls) (closest f)} = {f1, f2}
    \<and> \<not> popup_shown (contactForm_submit formGroups closest val cls)
    \<and> \<not> submit_scheduled (contactForm_submit formGroups closest val cls)"
proof -
  have fails: "field_fails f (val f) = (f = f1 \<or> f = f2)" for f
    using assms(3-5) field_fails_empty by metis
  then have "\<not> (\<forall>f. \<not> field_fails f (val f))" by blast
  then have inv: "\<not> isValid (contactForm_submit formGroups closest val cls)"
    unfolding contactForm_submit_isValid .
  have "{f. ''error'' \<in> groups (contactForm_submit formGroups closest val cls) (closest f)}
          = {f. field_fails f (val f)}"
    by (rule contactForm_submit_marked_fields [OF assms(1,2)])
  also have "\<dots> = {f1, f2}" using fails by blast
  finally show ?thesis using inv by (simp add: contactForm_submit_effects)
qed

section \<open>Image slider: the automatic advance and its reset\<close>

lemma updateSlider_env [simp]:
  "clock (updateSlider s) = clock s" "intervals (updateSlider s) = intervals s"
  "fired (updateSlider s) = fired s" "next_handle (updateSlider s) = next_handle s"
  "sliderInterval (updateSlider s) = sliderInterval s"
  "sliderArrowLeft (updateSlider s) = sliderArrowLeft s"
  "sliderArrowRight (updateSlider s) = sliderArrowRight s"
  "length (sliderDots (updateSlider s)) = length (sliderDots s)"
  by (simp_all add: updateSlider_def)

lemma showNextSlide_env [simp]:
  "clock (showNextSlide s) = clock s" "intervals (showNextSlide s) = intervals s"
  "fired (showNextSlide s) = fired s" "next_handle (showNextSlide s) = next_handle s"
  "sliderInterval (showNextSlide s) = sliderInterval s"
  "sliderArrowLeft (showNextSlide s) = sliderArrowLeft s"
  "sliderArrowRight (showNextSlide s) = sliderArrowRight s"
  "length (sliderDots (showNextSlide s)) = length (sliderDots s)"
  by (simp_all add: showNextSlide_def)

lemma showPrevSlide_env [simp]:
  "clock (showPrevSlide s) = clock s" "intervals (showPrevSlide s) = intervals s"
  "fired (showPrevSlide s) = fired s" "next_handle (showPrevSlide s) = next_handle s"
  "sliderInterval (showPrevSlide s) = sliderInterval s"
  "sliderArrowLeft (showPrevSlide s) = sliderArrowLeft s"
  "sliderArrowRight (showPrevSlide s) = sliderArrowRight s"
  "length (sliderDots (showPrevSlide s)) = length (sliderDots s)"
  by (simp_all add: showPrevSlide_def)

lemma goToSlide_env [simp]:
  "clock (goToSlide i s) = clock s" "intervals (goToSlide i s) = intervals s"
  "fired (goToSlide i s) = fired s" "next_handle (goToSlide i s) = next_handle s"
  "sliderInterval (goToSlide i s) = sliderInterval s"
  "sliderArrowLeft (goToSlide i s) = sliderArrowLeft s"
  "sliderArrowRight (goToSlide i s) = sliderArrowRight s"
  "length (sliderDots (goToSlide i s)) = length (sliderDots s)"
  "length (storiaSliderImages (goToSlide i s)) = length (storiaSliderImages s)"
  by (simp_all add: goToSlide_def)













end
